theory Spec2Isabelle
  imports Main "HOL-Library.Word" "HOL-Library.List_Lexorder"
begin

unbundle bit_operations_syntax

section \<open>Basic types\<close>

text \<open>
  Bytes are 8-bit words, byte strings are lists of them.  Go's \<open>uint64\<close> is a 64-bit
  word; Go's \<open>int\<close> and \<open>int64\<close> are 64-bit words read in two's complement
  (\<open>sint\<close>), so that conversions between the three keep the bits and arithmetic wraps.
\<close>

type_synonym byte = "8 word"
type_synonym bytes = "byte list"

text \<open>\<open>type Namespace uint64\<close> and \<open>type SortOrder uint64\<close> (tree.go, lines 11 and 20).\<close>

type_synonym Namespace = "64 word"
type_synonym SortOrder = "64 word"

text \<open>
  Run-time panics of tree.go: the explicit \<open>panic\<close> of the three \<open>SortOrder\<close>
  methods (with the offending index), Go's panic on a negative shift count, and Go's
  panic on a slice expression whose bound is out of range.
\<close>

datatype panic = SortOrderIndex "64 word" | NegativeShift | SliceBounds

text \<open>
  Errors that travel as Go \<open>error\<close> values: the two session errors named by the doc
  comments of \<open>Insert\<close> and \<open>Get\<close>, the error built by \<open>NewTransient\<close>, and any other
  error of the session or of the key encoder.
\<close>

datatype err =
    ErrKeyAlreadyExists
  | ErrKeyNotFound
  | ErrNamespaceInUse Namespace
  | ErrOther string

datatype failure = Panicked panic | Failed err

section \<open>SortOrder (tree.go, lines 22--46)\<close>

text \<open>
  \<open>mask := uint64(1) << (63 - i)\<close>: the count \<open>63 - i\<close> is an \<open>int\<close>; Go panics when
  it is negative and yields 0 when it is 64 or more, as \<open>push_bit\<close> on a 64-bit word
  does.
\<close>

definition shiftCount :: "64 word \<Rightarrow> failure + nat" where
  "shiftCount i =
     (let c = (63 :: 64 word) - i
      in if sint c < 0 then Inl (Panicked NegativeShift) else Inr (unat c))"

text \<open>
  \<open>uint64(o)&mask>>(63-i) != 0\<close>: in Go \<open>&\<close> and \<open>>>\<close> have the same precedence
  and associate to the left, so the conjunction is shifted.
\<close>

definition IsDesc :: "SortOrder \<Rightarrow> 64 word \<Rightarrow> failure + bool" where
  "IsDesc ord i =
     (if sint i > 63 then Inl (Panicked (SortOrderIndex i))
      else case shiftCount i of
             Inl f \<Rightarrow> Inl f
           | Inr n \<Rightarrow>
               (let mask = push_bit n (1 :: 64 word)
                in Inr (drop_bit n (ord AND mask) \<noteq> 0)))"

definition SetDesc :: "SortOrder \<Rightarrow> 64 word \<Rightarrow> failure + SortOrder" where
  "SetDesc ord i =
     (if sint i > 63 then Inl (Panicked (SortOrderIndex i))
      else case shiftCount i of
             Inl f \<Rightarrow> Inl f
           | Inr n \<Rightarrow>
               (let mask = push_bit n (1 :: 64 word)
                in Inr (ord OR mask)))"

definition SetAsc :: "SortOrder \<Rightarrow> 64 word \<Rightarrow> failure + SortOrder" where
  "SetAsc ord i =
     (if sint i > 63 then Inl (Panicked (SortOrderIndex i))
      else case shiftCount i of
             Inl f \<Rightarrow> Inl f
           | Inr n \<Rightarrow>
               (let mask = push_bit n (1 :: 64 word)
                in Inr (ord AND NOT mask)))"

section \<open>Keys, ranges and trees\<close>

text \<open>
  Modelled from the spec: the type \<open>Key\<close> and its constructor \<open>NewKey\<close> are
  declared in key.go of the same package.  Section 3 of the specification describes a
  key as an ordered tuple of values plus a cached encoded form; tree.go reads and
  writes exactly these two fields, the slice \<open>values\<close> (here \<open>values'\<close>, the
  plain name being a command of Isabelle) and \<open>Encoded\<close> (\<open>None\<close> is Go's
  \<open>nil\<close>).  \<open>NewKey(values...)\<close> builds a key that has no cached form yet.
\<close>

record 'v Key =
  values' :: "'v list"
  Encoded :: "bytes option"

definition NewKey :: "'v list \<Rightarrow> 'v Key" where
  "NewKey vs = \<lparr>values' = vs, Encoded = None\<rparr>"

text \<open>
  \<open>type Range struct { Min, Max *Key; Exclusive bool }\<close> (tree.go, lines 376--379).
  A \<open>nil\<close> pointer is \<open>None\<close>.  The fields \<open>Min\<close> and \<open>Max\<close> are
  \<open>Min_key\<close> and \<open>Max_key\<close> here, the plain names being constants of HOL.
\<close>

record 'v Range =
  Min_key :: "'v Key option"
  Max_key :: "'v Key option"
  Exclusive :: bool

text \<open>
  \<open>type Tree struct { Session; Namespace; Order }\<close> (tree.go, lines 57--61).  The
  session is a reference to a store shared by all trees; its state is passed to every
  operation and returned by those that change it, so the record keeps the two plain
  fields.
\<close>

record Tree =
  Namespace :: Namespace
  Order :: SortOrder

definition New :: "Namespace \<Rightarrow> SortOrder \<Rightarrow> Tree" where
  "New ns ord = \<lparr>Namespace = ns, Order = ord\<rparr>"

text \<open>
  The encoders tree.go calls but does not define are parameters of the model:
  \<open>encoding.EncodeInt(nil, n)\<close>, \<open>key.Encode(ns, order)\<close> (which may return an error
  or panic), \<open>value.Type()\<close> and the four sentinel tags of a type.
\<close>

record ('v, 'ty) Codec =
  EncodeInt :: "64 word \<Rightarrow> bytes"
  Encode :: "'v Key \<Rightarrow> Namespace \<Rightarrow> SortOrder \<Rightarrow> failure + bytes"
  Type :: "'v \<Rightarrow> 'ty"
  MinEnctype :: "'ty \<Rightarrow> byte"
  MinEnctypeDesc :: "'ty \<Rightarrow> byte"
  MaxEnctype :: "'ty \<Rightarrow> byte"
  MaxEnctypeDesc :: "'ty \<Rightarrow> byte"

section \<open>The session\<close>

text \<open>
  Modelled from the spec: \<open>engine.Session\<close> and its iterator are interfaces of
  the engine package, which tree.go only calls.  Section 4.D of the specification gives
  the contract: a byte store ordered lexicographically, \<open>Insert\<close> failing on an existing
  key, \<open>Put\<close> an upsert, \<open>Get\<close> and \<open>Delete\<close> failing with \<open>KeyNotFound\<close>,
  \<open>DeleteRange\<close> and \<open>Iterator\<close> over the half-open interval \<open>[lo, hi)\<close>.  Byte
  strings are compared by the order of lists of unsigned bytes, a proper prefix before
  its extensions.

  The store is an association list kept in key order.  Three more fields fix how the
  session's iterators fail, since tree.go handles an error of \<open>Session.Iterator\<close>, of
  \<open>it.Value()\<close> and of \<open>it.Error()\<close>: the error of opening an iterator, the keys
  whose value cannot be read, and the terminal error an iterator reports.
\<close>

record Session =
  kv :: "(bytes \<times> bytes) list"
  iterOpenErr :: "err option"
  valueErr :: "bytes \<Rightarrow> err option"
  iterErr :: "err option"

fun putKV :: "bytes \<Rightarrow> bytes \<Rightarrow> (bytes \<times> bytes) list \<Rightarrow> (bytes \<times> bytes) list" where
  "putKV k v [] = [(k, v)]"
| "putKV k v ((k', v') # rest) =
     (if k = k' then (k, v) # rest
      else if k < k' then (k, v) # (k', v') # rest
      else (k', v') # putKV k v rest)"

definition Session_Insert :: "bytes \<Rightarrow> bytes \<Rightarrow> Session \<Rightarrow> err option \<times> Session" where
  "Session_Insert k v s =
     (case map_of (kv s) k of
        Some _ \<Rightarrow> (Some ErrKeyAlreadyExists, s)
      | None \<Rightarrow> (None, s\<lparr>kv := putKV k v (kv s)\<rparr>))"

definition Session_Put :: "bytes \<Rightarrow> bytes \<Rightarrow> Session \<Rightarrow> err option \<times> Session" where
  "Session_Put k v s = (None, s\<lparr>kv := putKV k v (kv s)\<rparr>)"

definition Session_Get :: "bytes \<Rightarrow> Session \<Rightarrow> err + bytes" where
  "Session_Get k s =
     (case map_of (kv s) k of None \<Rightarrow> Inl ErrKeyNotFound | Some v \<Rightarrow> Inr v)"

definition Session_Exists :: "bytes \<Rightarrow> Session \<Rightarrow> err + bool" where
  "Session_Exists k s = Inr (map_of (kv s) k \<noteq> None)"

definition Session_Delete :: "bytes \<Rightarrow> Session \<Rightarrow> err option \<times> Session" where
  "Session_Delete k s =
     (case map_of (kv s) k of
        None \<Rightarrow> (Some ErrKeyNotFound, s)
      | Some _ \<Rightarrow> (None, s\<lparr>kv := filter (\<lambda>e. fst e \<noteq> k) (kv s)\<rparr>))"

definition inBounds :: "bytes \<Rightarrow> bytes \<Rightarrow> bytes \<Rightarrow> bool" where
  "inBounds lo hi k = (lo \<le> k \<and> k < hi)"


text \<open>
  \<open>engine.IterOptions\<close> and the iterator.  An iterator holds the entries within its
  bounds in key order, each with the result of reading its value, and a cursor;
  it is valid while the cursor is on an entry.  \<open>closed\<close> counts the calls of
  \<open>Close\<close>.
\<close>

record IterOptions =
  LowerBound :: bytes
  UpperBound :: bytes

record Iterator =
  items :: "(bytes \<times> (err + bytes)) list"
  pos :: int
  termErr :: "err option"
  closed :: nat

definition readValue :: "Session \<Rightarrow> bytes \<times> bytes \<Rightarrow> bytes \<times> (err + bytes)" where
  "readValue s e =
     (fst e, case valueErr s (fst e) of Some x \<Rightarrow> Inl x | None \<Rightarrow> Inr (snd e))"

definition Session_Iterator :: "IterOptions \<Rightarrow> Session \<Rightarrow> err + Iterator" where
  "Session_Iterator opts s =
     (case iterOpenErr s of
        Some e \<Rightarrow> Inl e
      | None \<Rightarrow>
          Inr \<lparr>items = map (readValue s)
                         (filter (\<lambda>e. inBounds (LowerBound opts) (UpperBound opts) (fst e)) (kv s)),
               pos = - 1, termErr = iterErr s, closed = 0\<rparr>)"

definition it_Valid :: "Iterator \<Rightarrow> bool" where
  "it_Valid it = (0 \<le> pos it \<and> pos it < int (length (items it)))"

definition it_First :: "Iterator \<Rightarrow> Iterator" where
  "it_First it = it\<lparr>pos := 0\<rparr>"

definition it_Last :: "Iterator \<Rightarrow> Iterator" where
  "it_Last it = it\<lparr>pos := int (length (items it)) - 1\<rparr>"

definition it_Next :: "Iterator \<Rightarrow> Iterator" where
  "it_Next it = it\<lparr>pos := pos it + 1\<rparr>"

definition it_Prev :: "Iterator \<Rightarrow> Iterator" where
  "it_Prev it = it\<lparr>pos := pos it - 1\<rparr>"

definition it_Key :: "Iterator \<Rightarrow> bytes" where
  "it_Key it = fst (items it ! nat (pos it))"

definition it_Value :: "Iterator \<Rightarrow> err + bytes" where
  "it_Value it = snd (items it ! nat (pos it))"

definition it_Error :: "Iterator \<Rightarrow> err option" where
  "it_Error it = termErr it"

definition it_Close :: "Iterator \<Rightarrow> Iterator" where
  "it_Close it = it\<lparr>closed := Suc (closed it)\<rparr>"

section \<open>Tree operations (tree.go, lines 89--164)\<close>

text \<open>\<open>var defaultValue = []byte{0}\<close>.\<close>

definition defaultValue :: bytes where
  "defaultValue = [0]"

text \<open>
  Every operation takes the codec and the session state.  An operation that returns
  only a Go \<open>error\<close> returns \<open>None\<close> for \<open>nil\<close>, paired with the new session state.
\<close>

definition Insert ::
  "('v, 'ty) Codec \<Rightarrow> Tree \<Rightarrow> 'v Key \<Rightarrow> bytes \<Rightarrow> Session \<Rightarrow> failure option \<times> Session" where
  "Insert c t key val s =
     (let val = (if length val = 0 then defaultValue else val)
      in case Encode c key (Namespace t) (Order t) of
           Inl f \<Rightarrow> (Some f, s)
         | Inr k \<Rightarrow>
             (case Session_Insert k val s of (e, s') \<Rightarrow> (map_option Failed e, s')))"

definition Put ::
  "('v, 'ty) Codec \<Rightarrow> Tree \<Rightarrow> 'v Key \<Rightarrow> bytes \<Rightarrow> Session \<Rightarrow> failure option \<times> Session" where
  "Put c t key val s =
     (let val = (if length val = 0 then defaultValue else val)
      in case Encode c key (Namespace t) (Order t) of
           Inl f \<Rightarrow> (Some f, s)
         | Inr k \<Rightarrow>
             (case Session_Put k val s of (e, s') \<Rightarrow> (map_option Failed e, s')))"

text \<open>\<open>Get\<close> returns \<open>([]byte, error)\<close>; the \<open>nil\<close> byte slice is \<open>None\<close>.\<close>

definition Get ::
  "('v, 'ty) Codec \<Rightarrow> Tree \<Rightarrow> 'v Key \<Rightarrow> Session \<Rightarrow> failure + bytes option" where
  "Get c t key s =
     (case Encode c key (Namespace t) (Order t) of
        Inl f \<Rightarrow> Inl f
      | Inr k \<Rightarrow>
          (case Session_Get k s of
             Inl e \<Rightarrow> Inl (Failed e)
           | Inr v \<Rightarrow> if length v = 0 \<or> v ! 0 = 0 then Inr None else Inr (Some v)))"

definition Exists ::
  "('v, 'ty) Codec \<Rightarrow> Tree \<Rightarrow> 'v Key \<Rightarrow> Session \<Rightarrow> failure + bool" where
  "Exists c t key s =
     (case Encode c key (Namespace t) (Order t) of
        Inl f \<Rightarrow> Inl f
      | Inr k \<Rightarrow>
          (case Session_Exists k s of Inl e \<Rightarrow> Inl (Failed e) | Inr b \<Rightarrow> Inr b))"

definition Delete ::
  "('v, 'ty) Codec \<Rightarrow> Tree \<Rightarrow> 'v Key \<Rightarrow> Session \<Rightarrow> failure option \<times> Session" where
  "Delete c t key s =
     (case Encode c key (Namespace t) (Order t) of
        Inl f \<Rightarrow> (Some f, s)
      | Inr k \<Rightarrow>
          (case Session_Delete k s of (e, s') \<Rightarrow> (map_option Failed e, s')))"


section \<open>Range boundaries (tree.go, lines 236--370)\<close>

text \<open>
  \<open>len(rng.Min.values) - 1\<close> is an \<open>int\<close>: \<open>- 1\<close> for a key without components.
\<close>

definition isDescRange :: "Tree \<Rightarrow> 'v Range \<Rightarrow> failure + bool" where
  "isDescRange t rng =
     (case Min_key rng of
        Some m \<Rightarrow> IsDesc (Order t) (of_nat (length (values' m)) - 1)
      | None \<Rightarrow>
          (case Max_key rng of
             Some m \<Rightarrow> IsDesc (Order t) (of_nat (length (values' m)) - 1)
           | None \<Rightarrow> Inr False))"

definition buildFirstKey :: "('v, 'ty) Codec \<Rightarrow> Tree \<Rightarrow> failure + bytes" where
  "buildFirstKey c t = Encode c (NewKey []) (Namespace t) (Order t)"

definition buildLastKey :: "('v, 'ty) Codec \<Rightarrow> Tree \<Rightarrow> bytes" where
  "buildLastKey c t = EncodeInt c (Namespace t) @ [0xFF]"

text \<open>
  In the last branch the source slices \<open>max.values[:len(max.values)-1]\<close>; for a key
  without components the bound is \<open>- 1\<close> and Go panics.
\<close>

definition buildMinKeyForType ::
  "('v, 'ty) Codec \<Rightarrow> Tree \<Rightarrow> 'v Key option \<Rightarrow> bool \<Rightarrow> failure + bytes" where
  "buildMinKeyForType c t max' desc =
     (case max' of
        None \<Rightarrow> (case buildFirstKey c t of Inl f \<Rightarrow> Inl f | Inr k \<Rightarrow> Inr k)
      | Some m \<Rightarrow>
          if length (values' m) = 1 then
            (let buf = EncodeInt c (Namespace t)
             in if desc then Inr (buf @ [MinEnctypeDesc c (Type c (values' m ! 0))])
                else Inr (buf @ [MinEnctype c (Type c (values' m ! 0))]))
          else if length (values' m) = 0 then Inl (Panicked SliceBounds)
          else
            (case Encode c (NewKey (take (length (values' m) - 1) (values' m)))
                    (Namespace t) (Order t) of
               Inl f \<Rightarrow> Inl f
             | Inr buf \<Rightarrow>
                 (let i = length (values' m) - 1
                  in if desc then Inr (buf @ [MinEnctypeDesc c (Type c (values' m ! i))])
                     else Inr (buf @ [MinEnctype c (Type c (values' m ! i))]))))"

definition buildMaxKeyForType ::
  "('v, 'ty) Codec \<Rightarrow> Tree \<Rightarrow> 'v Key option \<Rightarrow> bool \<Rightarrow> failure + bytes" where
  "buildMaxKeyForType c t min' desc =
     (case min' of
        None \<Rightarrow> Inr (buildLastKey c t)
      | Some m \<Rightarrow>
          if length (values' m) = 1 then
            (let buf = EncodeInt c (Namespace t)
             in if desc then Inr (buf @ [MaxEnctypeDesc c (Type c (values' m ! 0))])
                else Inr (buf @ [MaxEnctype c (Type c (values' m ! 0))]))
          else if length (values' m) = 0 then Inl (Panicked SliceBounds)
          else
            (case Encode c (NewKey (take (length (values' m) - 1) (values' m)))
                    (Namespace t) (Order t) of
               Inl f \<Rightarrow> Inl f
             | Inr buf \<Rightarrow>
                 (let i = length (values' m) - 1
                  in if desc then Inr (buf @ [MaxEnctypeDesc c (Type c (values' m ! i))])
                     else Inr (buf @ [MaxEnctype c (Type c (values' m ! i))]))))"

definition buildStartKeyInclusive ::
  "('v, 'ty) Codec \<Rightarrow> Tree \<Rightarrow> 'v Key \<Rightarrow> bool \<Rightarrow> failure + bytes" where
  "buildStartKeyInclusive c t key desc = Encode c key (Namespace t) (Order t)"

definition buildStartKeyExclusive ::
  "('v, 'ty) Codec \<Rightarrow> Tree \<Rightarrow> 'v Key \<Rightarrow> bool \<Rightarrow> failure + bytes" where
  "buildStartKeyExclusive c t key desc =
     (case Encode c key (Namespace t) (Order t) of
        Inl f \<Rightarrow> Inl f
      | Inr b \<Rightarrow> Inr (b @ [0xFF]))"

definition buildEndKeyInclusive ::
  "('v, 'ty) Codec \<Rightarrow> Tree \<Rightarrow> 'v Key \<Rightarrow> bool \<Rightarrow> failure + bytes" where
  "buildEndKeyInclusive c t key desc =
     (case Encode c key (Namespace t) (Order t) of
        Inl f \<Rightarrow> Inl f
      | Inr b \<Rightarrow> Inr (b @ [0xFF]))"

definition buildEndKeyExclusive ::
  "('v, 'ty) Codec \<Rightarrow> Tree \<Rightarrow> 'v Key \<Rightarrow> bool \<Rightarrow> failure + bytes" where
  "buildEndKeyExclusive c t key desc = Encode c key (Namespace t) (Order t)"

definition buildInclusiveBoundaries ::
  "('v, 'ty) Codec \<Rightarrow> Tree \<Rightarrow> 'v Key option \<Rightarrow> 'v Key option \<Rightarrow> bool
     \<Rightarrow> failure + bytes \<times> bytes" where
  "buildInclusiveBoundaries c t min' max' desc =
     (case (case min' of
              None \<Rightarrow> buildMinKeyForType c t max' desc
            | Some m \<Rightarrow> buildStartKeyInclusive c t m desc) of
        Inl f \<Rightarrow> Inl f
      | Inr start \<Rightarrow>
          (case (case max' of
                   None \<Rightarrow> buildMaxKeyForType c t min' desc
                 | Some m \<Rightarrow> buildEndKeyInclusive c t m desc) of
             Inl f \<Rightarrow> Inl f
           | Inr end' \<Rightarrow> Inr (start, end')))"

definition buildExclusiveBoundaries ::
  "('v, 'ty) Codec \<Rightarrow> Tree \<Rightarrow> 'v Key option \<Rightarrow> 'v Key option \<Rightarrow> bool
     \<Rightarrow> failure + bytes \<times> bytes" where
  "buildExclusiveBoundaries c t min' max' desc =
     (case (case min' of
              None \<Rightarrow> buildMinKeyForType c t max' desc
            | Some m \<Rightarrow> buildStartKeyExclusive c t m desc) of
        Inl f \<Rightarrow> Inl f
      | Inr start \<Rightarrow>
          (case (case max' of
                   None \<Rightarrow> buildMaxKeyForType c t min' desc
                 | Some m \<Rightarrow> buildEndKeyExclusive c t m desc) of
             Inl f \<Rightarrow> Inl f
           | Inr end' \<Rightarrow> Inr (start, end')))"

section \<open>IterateOnRange and NewTransient (tree.go, lines 71--87 and 167--234)\<close>

text \<open>
  Lines 175--190 of \<open>IterateOnRange\<close>: the direction of the range, the swap of
  \<open>Min\<close> and \<open>Max\<close> for a descending range, and the two bounds handed to the
  session's iterator.  They are a definition of their own so that the bounds can be
  stated.
\<close>

definition rangeBoundaries ::
  "('v, 'ty) Codec \<Rightarrow> Tree \<Rightarrow> 'v Range \<Rightarrow> failure + bytes \<times> bytes" where
  "rangeBoundaries c t rng =
     (case isDescRange t rng of
        Inl f \<Rightarrow> Inl f
      | Inr desc \<Rightarrow>
          (let min' = (if \<not> desc then Min_key rng else Max_key rng);
               max' = (if \<not> desc then Max_key rng else Min_key rng)
           in if \<not> Exclusive rng then buildInclusiveBoundaries c t min' max' desc
              else buildExclusiveBoundaries c t min' max' desc))"

text \<open>
  The callback \<open>fn\<close> is a Go closure: it gets the key and the value (\<open>None\<close> for
  \<open>nil\<close>), may change the state \<open>'a\<close> it has captured, and returns an error or
  \<open>nil\<close>.  The loop of lines 209--233 returns the result of the walk, the state of the
  callback and the iterator as the walk left it.
\<close>

function iterLoop ::
  "bool \<Rightarrow> ('v Key \<Rightarrow> bytes option \<Rightarrow> 'a \<Rightarrow> err option \<times> 'a) \<Rightarrow> Iterator \<Rightarrow> 'a
     \<Rightarrow> failure option \<times> 'a \<times> Iterator" where
  "iterLoop reverse fn it a =
     (if it_Valid it then
        (case it_Value it of
           Inl e \<Rightarrow> (Some (Failed e), a, it)
         | Inr v \<Rightarrow>
             (case fn \<lparr>values' = [], Encoded = Some (it_Key it)\<rparr>
                      (if length v = 0 \<or> v ! 0 = 0 then None else Some v) a of
                (Some e, a') \<Rightarrow> (Some (Failed e), a', it)
              | (None, a') \<Rightarrow>
                  iterLoop reverse fn (if \<not> reverse then it_Next it else it_Prev it) a'))
      else (map_option Failed (it_Error it), a, it))"
  by pat_completeness auto
termination
  by (relation "measure (\<lambda>(reverse, fn, it, a).
        if reverse then nat (pos it + 1) else nat (int (length (items it)) - pos it))")
     (auto simp: it_Valid_def it_Next_def it_Prev_def)

text \<open>
  \<open>IterateOnRange\<close> returns its error, the state of the callback, and the iterator
  it opened, if any, as it is when the function returns: \<open>defer it.Close()\<close> runs on
  every return after the iterator was opened.
\<close>

definition IterateOnRange ::
  "('v, 'ty) Codec \<Rightarrow> Tree \<Rightarrow> 'v Range option \<Rightarrow> bool
     \<Rightarrow> ('v Key \<Rightarrow> bytes option \<Rightarrow> 'a \<Rightarrow> err option \<times> 'a) \<Rightarrow> 'a \<Rightarrow> Session
     \<Rightarrow> failure option \<times> 'a \<times> Iterator option" where
  "IterateOnRange c t rng reverse fn a s =
     (let rng = (case rng of
                   None \<Rightarrow> \<lparr>Min_key = None, Max_key = None, Exclusive = False\<rparr>
                 | Some r \<Rightarrow> r)
      in case rangeBoundaries c t rng of
           Inl f \<Rightarrow> (Some f, a, None)
         | Inr (start, end') \<Rightarrow>
             (case Session_Iterator \<lparr>LowerBound = start, UpperBound = end'\<rparr> s of
                Inl e \<Rightarrow> (Some (Failed e), a, None)
              | Inr it \<Rightarrow>
                  (case iterLoop reverse fn (if \<not> reverse then it_First it else it_Last it) a of
                     (r, a', it') \<Rightarrow> (r, a', Some (it_Close it')))))"


section \<open>Conflict actions (database package)\<close>

text \<open>
  The table and the document are declared elsewhere in the database package; the two
  calls made on the table are parameters: \<open>t.Replace(key, d)\<close>, which returns an error and
  changes the table, and \<open>t.Info.GetPrimaryKey()\<close>.  A returned document is the
  incoming one or a \<open>documentWithKey\<close> wrapping it.
\<close>

record ('tbl, 'd, 'pk) TableOps =
  Replace :: "'tbl \<Rightarrow> bytes \<Rightarrow> 'd \<Rightarrow> err option \<times> 'tbl"
  GetPrimaryKey :: "'tbl \<Rightarrow> 'pk"

datatype ('d, 'pk) Document = Plain 'd | documentWithKey 'd bytes 'pk

text \<open>The four-argument actions; the key is \<open>None\<close> for \<open>nil\<close>.\<close>

definition OnInsertConflictDoNothing ::
  "'tbl \<Rightarrow> bytes option \<Rightarrow> 'd \<Rightarrow> err option
     \<Rightarrow> ('d, 'pk) Document option \<times> err option \<times> 'tbl" where
  "OnInsertConflictDoNothing t key d e = (None, None, t)"

definition OnInsertConflictDoReplace ::
  "('tbl, 'd, 'pk) TableOps \<Rightarrow> 'tbl \<Rightarrow> bytes option \<Rightarrow> 'd \<Rightarrow> err option
     \<Rightarrow> ('d, 'pk) Document option \<times> err option \<times> 'tbl" where
  "OnInsertConflictDoReplace ops t key d e =
     (case key of
        None \<Rightarrow> (Some (Plain d), e, t)
      | Some k \<Rightarrow>
          (case Replace ops t k d of
             (Some e', t') \<Rightarrow> (None, Some e', t')
           | (None, t') \<Rightarrow> (Some (documentWithKey d k (GetPrimaryKey ops t')), None, t')))"

text \<open>The three-argument \<open>OnInsertConflictDoNothing\<close> of conflict.go.\<close>

definition OnInsertConflictDoNothing3 ::
  "'tbl \<Rightarrow> bytes option \<Rightarrow> 'd \<Rightarrow> ('d, 'pk) Document option \<times> err option \<times> 'tbl" where
  "OnInsertConflictDoNothing3 t key d = (None, None, t)"

section \<open>Reference definitions\<close>

text \<open>
  The walk as the specification words it: over the entries in the order of the walk,
  the first error of reading a value or of the callback ends the walk and is its
  result; entries after it are not looked at.
\<close>

fun walkSpec ::
  "('v Key \<Rightarrow> bytes option \<Rightarrow> 'a \<Rightarrow> err option \<times> 'a) \<Rightarrow> (bytes \<times> (err + bytes)) list \<Rightarrow> 'a
     \<Rightarrow> err option \<times> 'a" where
  "walkSpec fn [] a = (None, a)"
| "walkSpec fn ((k, Inl e) # es) a = (Some e, a)"
| "walkSpec fn ((k, Inr v) # es) a =
     (case fn \<lparr>values' = [], Encoded = Some k\<rparr> (if v = [] \<or> hd v = 0 then None else Some v) a of
        (Some e, a') \<Rightarrow> (Some e, a')
      | (None, a') \<Rightarrow> walkSpec fn es a')"

text \<open>
  A codec to run the model on: a namespace is one byte, a value is a pair of a type
  tag and a payload byte, a key with a cached form encodes to it.
\<close>

definition demoCodec :: "(byte \<times> byte, byte) Codec" where
  "demoCodec =
     \<lparr>EncodeInt = (\<lambda>n. [ucast n]),
      Encode = (\<lambda>k ns ord.
         case Encoded k of
           Some b \<Rightarrow> Inr b
         | None \<Rightarrow> Inr ([ucast ns] @ concat (map (\<lambda>v. [fst v, snd v]) (values' k)))),
      Type = fst,
      MinEnctype = (\<lambda>ty. ty - 1),
      MinEnctypeDesc = (\<lambda>ty. ty + 63),
      MaxEnctype = (\<lambda>ty. ty + 1),
      MaxEnctypeDesc = (\<lambda>ty. ty + 65)\<rparr>"

definition demoSession :: "(bytes \<times> bytes) list \<Rightarrow> Session" where
  "demoSession l = \<lparr>kv = l, iterOpenErr = None, valueErr = (\<lambda>k. None), iterErr = None\<rparr>"

text \<open>
  Two callbacks to run \<open>IterateOnRange\<close> with: one records every key and value it
  is given, the other does the same but returns an error at a chosen key.
\<close>

definition collectKeys ::
  "'v Key \<Rightarrow> bytes option \<Rightarrow> (bytes option \<times> bytes option) list
     \<Rightarrow> err option \<times> (bytes option \<times> bytes option) list" where
  "collectKeys k v a = (None, a @ [(Encoded k, v)])"

definition stopAt ::
  "bytes \<Rightarrow> 'v Key \<Rightarrow> bytes option \<Rightarrow> (bytes option \<times> bytes option) list
     \<Rightarrow> err option \<times> (bytes option \<times> bytes option) list" where
  "stopAt b k v a =
     (if Encoded k = Some b then (Some (ErrOther ''stop''), a) else (None, a @ [(Encoded k, v)]))"

text \<open>
  A table to run the conflict actions with: rows are kept by key, \<open>Replace\<close> fails
  with \<open>ErrKeyNotFound\<close> when the key has no row.
\<close>

definition demoTable :: "((bytes \<times> string) list, string, string) TableOps" where
  "demoTable =
     \<lparr>Replace = (\<lambda>t k d.
         case map_of t k of
           None \<Rightarrow> (Some ErrKeyNotFound, t)
         | Some _ \<Rightarrow> (None, map (\<lambda>r. if fst r = k then (k, d) else r) t)),
      GetPrimaryKey = (\<lambda>t. ''id'')\<rparr>"

section \<open>Properties of SortOrder\<close>

lemma mask_test_word:
  "drop_bit n ((w :: 64 word) AND push_bit n 1) = (if bit w n then 1 else 0)"
proof (rule bit_word_eqI)
  fix k
  assume "k < LENGTH(64)"
  have "bit w n \<Longrightarrow> n < 64" using bit_imp_le_length [of w n] by simp
  then show "bit (drop_bit n (w AND push_bit n 1)) k = bit (if bit w n then 1 else 0 :: 64 word) k"
    by (cases "k = 0") (auto simp: bit_simps)
qed

lemma mask_test: "(drop_bit n ((w :: 64 word) AND push_bit n 1) \<noteq> 0) = bit w n"
  by (simp only: mask_test_word) simp

lemma sint_nonneg_uint:
  assumes "0 \<le> sint (c :: 64 word)"
  shows "sint c = uint c"
proof -
  have s: "sint c = signed_take_bit 63 (uint c)" by (simp add: sint_uint)
  have "uint c < 2 ^ 63"
  proof (rule ccontr)
    assume "\<not> uint c < 2 ^ 63"
    then have "signed_take_bit 63 (uint c) \<le> uint c - 2 ^ Suc 63"
      by (intro signed_take_bit_int_less_eq) simp
    moreover have "uint c < 2 ^ 64" using uint_lt2p [of c] by simp
    ultimately show False using assms s by simp
  qed
  moreover have "- (2 ^ 63) \<le> uint c"
    by (rule order_trans [of _ 0]) simp_all
  ultimately have "signed_take_bit 63 (uint c) = uint c"
    by (intro signed_take_bit_int_eq_self)
  then show ?thesis using s by simp
qed

lemma sint_sub63:
  assumes "- 9223372036854775744 \<le> sint (i :: 64 word)"
  shows "sint ((63 :: 64 word) - i) = 63 - sint i"
proof -
  have "sint i < 2 ^ 63" using sint_less [of i] by simp
  have "sint ((63 :: 64 word) - i) = signed_take_bit 63 (63 - sint i)"
    by (simp add: sint_word_ariths)
  also have "\<dots> = 63 - sint i"
    using assms \<open>sint i < 2 ^ 63\<close> by (intro signed_take_bit_int_eq_self) simp_all
  finally show ?thesis .
qed

lemma sint_sub63_wrap:
  assumes "sint (i :: 64 word) < - 9223372036854775744"
  shows "sint ((63 :: 64 word) - i) < 0"
proof -
  have lo: "- (2 ^ 63) \<le> sint i" using sint_greater_eq [of i] by simp
  have "sint ((63 :: 64 word) - i) = signed_take_bit 63 (63 - sint i)"
    by (simp add: sint_word_ariths)
  also have "\<dots> \<le> (63 - sint i) - 2 ^ Suc 63"
    using assms by (intro signed_take_bit_int_less_eq) simp
  finally show ?thesis using lo by simp
qed

lemma shiftCount_eq:
  "shiftCount i =
     (if - 9223372036854775744 \<le> sint i \<and> sint i \<le> 63
      then Inr (nat (63 - sint i)) else Inl (Panicked NegativeShift))"
proof (cases "- 9223372036854775744 \<le> sint i")
  case True
  note s = sint_sub63 [OF True]
  show ?thesis
  proof (cases "sint i \<le> 63")
    case le: True
    then have "0 \<le> sint (63 - i)" using s by simp
    then have "unat (63 - i) = nat (63 - sint i)"
      using sint_nonneg_uint [of "63 - i"] s by (simp add: unat_eq_nat_uint del: nat_uint_eq)
    then show ?thesis using True le s by (simp add: shiftCount_def)
  next
    case False
    then show ?thesis using True s by (simp add: shiftCount_def)
  qed
next
  case False
  then have "sint (63 - i) < 0" using sint_sub63_wrap [of i] by simp
  then show ?thesis using False by (simp add: shiftCount_def)
qed

lemma IsDesc_eq:
  "IsDesc ord i =
     (if 63 < sint i then Inl (Panicked (SortOrderIndex i))
      else if sint i < - 9223372036854775744 then Inl (Panicked NegativeShift)
      else Inr (bit ord (nat (63 - sint i))))"
  unfolding IsDesc_def Let_def mask_test shiftCount_eq by simp

lemma SetDesc_eq:
  "SetDesc ord i =
     (if 63 < sint i then Inl (Panicked (SortOrderIndex i))
      else if sint i < - 9223372036854775744 then Inl (Panicked NegativeShift)
      else Inr (ord OR push_bit (nat (63 - sint i)) 1))"
  unfolding SetDesc_def Let_def shiftCount_eq by simp

lemma SetAsc_eq:
  "SetAsc ord i =
     (if 63 < sint i then Inl (Panicked (SortOrderIndex i))
      else if sint i < - 9223372036854775744 then Inl (Panicked NegativeShift)
      else Inr (ord AND NOT (push_bit (nat (63 - sint i)) 1)))"
  unfolding SetAsc_def Let_def shiftCount_eq by simp

lemma IsDesc_minus_one: "IsDesc ord (- 1) = Inr False"
  by (simp add: IsDesc_def shiftCount_def)

text \<open>The index \<open>len(values) - 1\<close> of the last component of a key.\<close>

lemma sint_last_index:
  assumes "n < 2 ^ 63"
  shows "sint ((of_nat n :: 64 word) - 1) = int n - 1"
proof -
  have n: "int n < 2 ^ 63" using assms by (simp add: of_nat_less_iff [of n "2 ^ 63", simplified])
  have "sint (of_nat n :: 64 word) = signed_take_bit 63 (int n)"
    by (simp add: signed_of_nat)
  also have "\<dots> = int n" using n by (intro signed_take_bit_int_eq_self) simp_all
  finally have a: "sint (of_nat n :: 64 word) = int n" .
  have "sint ((of_nat n :: 64 word) - 1) = signed_take_bit 63 (int n - 1)"
    using a by (simp add: sint_word_ariths)
  also have "\<dots> = int n - 1" using n by (intro signed_take_bit_int_eq_self) simp_all
  finally show ?thesis .
qed

lemma IsDesc_last_index:
  assumes "n < 2 ^ 63"
  shows "IsDesc ord (of_nat n - 1) =
           (if 64 < n then Inl (Panicked (SortOrderIndex (of_nat n - 1)))
            else if n = 0 then Inr False
            else Inr (bit ord (64 - n)))"
proof -
  have s: "sint ((of_nat n :: 64 word) - 1) = int n - 1" by (rule sint_last_index [OF assms])
  have b: "n \<noteq> 0 \<Longrightarrow> n \<le> 64 \<Longrightarrow> nat (63 - (int n - 1)) = 64 - n" by simp
  have z: "\<not> bit ord (64 :: nat)" using bit_imp_le_length [of ord 64] by auto
  show ?thesis
    unfolding IsDesc_eq s using b z by (auto simp: nat_diff_distrib)
qed

section \<open>The direction of a range\<close>

lemma isDescRange_no_components:
  assumes "Min_key rng = Some k \<and> values' k = [] \<or>
           Min_key rng = None \<and> Max_key rng = Some k \<and> values' k = []"
  shows "isDescRange t rng = Inr False"
  using assms by (auto simp: isDescRange_def IsDesc_minus_one)

lemma rangeBoundaries_asc:
  assumes "isDescRange t rng = Inr False"
  shows "rangeBoundaries c t rng =
           (if \<not> Exclusive rng then buildInclusiveBoundaries c t (Min_key rng) (Max_key rng) False
            else buildExclusiveBoundaries c t (Min_key rng) (Max_key rng) False)"
  using assms by (simp add: rangeBoundaries_def)

lemma rangeBoundaries_desc:
  assumes "isDescRange t rng = Inr True"
  shows "rangeBoundaries c t rng =
           (if \<not> Exclusive rng then buildInclusiveBoundaries c t (Max_key rng) (Min_key rng) True
            else buildExclusiveBoundaries c t (Max_key rng) (Min_key rng) True)"
  using assms by (simp add: rangeBoundaries_def)

text \<open>
  Claim C8, as amended.  For every index \<open>i\<close> greater than 63, \<open>IsDesc\<close>, \<open>SetDesc\<close>
  and \<open>SetAsc\<close> panic; for every \<open>i\<close> from 0 to 63 they return: \<open>IsDesc\<close> reads bit
  \<open>63 - i\<close> of the order, \<open>SetDesc\<close> sets it and \<open>SetAsc\<close> clears it; the zero
  order answers \<open>IsDesc(i) = false\<close> for each of these indices.
\<close>

theorem SortOrder_index:
  "(63 < sint i \<longrightarrow>
      IsDesc ord i = Inl (Panicked (SortOrderIndex i)) \<and>
      SetDesc ord i = Inl (Panicked (SortOrderIndex i)) \<and>
      SetAsc ord i = Inl (Panicked (SortOrderIndex i))) \<and>
   (0 \<le> sint i \<and> sint i \<le> 63 \<longrightarrow>
      IsDesc ord i = Inr (bit ord (63 - nat (sint i))) \<and>
      SetDesc ord i = Inr (ord OR push_bit (63 - nat (sint i)) 1) \<and>
      SetAsc ord i = Inr (ord AND NOT (push_bit (63 - nat (sint i)) 1)) \<and>
      IsDesc 0 i = Inr False)"
proof -
  have n: "0 \<le> sint i \<Longrightarrow> nat (63 - sint i) = 63 - nat (sint i)"
    by (simp add: nat_diff_distrib)
  show ?thesis
    unfolding IsDesc_eq SetDesc_eq SetAsc_eq using n by simp
qed

theorem SortOrder_index_witness:
  "63 < sint (64 :: 64 word) \<and>
   IsDesc 5 64 = Inl (Panicked (SortOrderIndex 64)) \<and>
   SetDesc 5 64 = Inl (Panicked (SortOrderIndex 64)) \<and>
   SetAsc 5 64 = Inl (Panicked (SortOrderIndex 64)) \<and>
   0 \<le> sint (62 :: 64 word) \<and> sint (62 :: 64 word) \<le> 63 \<and>
   IsDesc 2 62 = Inr True \<and> SetDesc 2 62 = Inr 2 \<and> SetAsc 2 62 = Inr 0 \<and>
   IsDesc 0 62 = Inr False"
proof -
  have h1: "63 < sint (64 :: 64 word)" by simp
  have h2: "0 \<le> sint (62 :: 64 word) \<and> sint (62 :: 64 word) \<le> 63" by simp
  have n: "63 - nat (sint (62 :: 64 word)) = 1" by simp
  have b: "bit (2 :: 64 word) 1" by simp
  have o: "(2 :: 64 word) OR push_bit 1 1 = 2" by simp
  have a: "(2 :: 64 word) AND NOT (push_bit 1 1) = 0" by simp
  have t1: "IsDesc 5 64 = Inl (Panicked (SortOrderIndex 64)) \<and>
      SetDesc 5 64 = Inl (Panicked (SortOrderIndex 64)) \<and>
      SetAsc 5 64 = Inl (Panicked (SortOrderIndex 64))"
    using SortOrder_index [of 64 5] h1 by blast
  have "IsDesc 2 62 = Inr (bit (2 :: 64 word) (63 - nat (sint (62 :: 64 word)))) \<and>
      SetDesc 2 62 = Inr (2 OR push_bit (63 - nat (sint (62 :: 64 word))) 1) \<and>
      SetAsc 2 62 = Inr (2 AND NOT (push_bit (63 - nat (sint (62 :: 64 word))) 1)) \<and>
      IsDesc 0 62 = Inr False"
    using SortOrder_index [of 62 2] h2 by blast
  then have t2: "IsDesc 2 62 = Inr True \<and> SetDesc 2 62 = Inr 2 \<and> SetAsc 2 62 = Inr 0 \<and>
      IsDesc 0 62 = Inr False"
    by (simp only: n b o a)
  from t1 t2 h1 h2 show ?thesis by blast
qed

text \<open>
  Claim C8 as stated fails at the index \<open>- 1\<close>, which is outside \<open>[0, 63]\<close>: none of
  the three methods panics there.
\<close>

theorem SortOrder_negative_index_counterexample:
  "\<not> (0 \<le> sint (- 1 :: 64 word) \<and> sint (- 1 :: 64 word) \<le> 63) \<and>
   IsDesc 0 (- 1) = Inr False \<and> SetDesc 0 (- 1) = Inr 0 \<and> SetAsc 0 (- 1) = Inr 0"
  by (simp add: IsDesc_eq SetDesc_eq SetAsc_eq)


text \<open>
  Claim C2.  If \<open>Min\<close> is present, the direction of a range is the direction, under
  the tree's order, of the last component of \<open>Min\<close>; else, if \<open>Max\<close> is present, that
  of the last component of \<open>Max\<close>; else ascending.  For a key of 1 to 64 components
  that direction is bit \<open>64 - n\<close> of the order (bit 63 stands for component 0).
  A descending range has \<open>Min\<close> and \<open>Max\<close> swapped before its boundaries are built,
  an ascending one has not.
\<close>

theorem range_direction:
  "(Min_key rng = Some m \<longrightarrow>
      isDescRange t rng = IsDesc (Order t) (of_nat (length (values' m)) - 1)) \<and>
   (Min_key rng = None \<and> Max_key rng = Some m \<longrightarrow>
      isDescRange t rng = IsDesc (Order t) (of_nat (length (values' m)) - 1)) \<and>
   (Min_key rng = None \<and> Max_key rng = None \<longrightarrow> isDescRange t rng = Inr False) \<and>
   (1 \<le> length (values' m) \<and> length (values' m) \<le> 64 \<longrightarrow>
      IsDesc (Order t) (of_nat (length (values' m)) - 1) =
        Inr (bit (Order t) (64 - length (values' m)))) \<and>
   (isDescRange t rng = Inr True \<longrightarrow>
      rangeBoundaries c t rng =
        (if \<not> Exclusive rng then buildInclusiveBoundaries c t (Max_key rng) (Min_key rng) True
         else buildExclusiveBoundaries c t (Max_key rng) (Min_key rng) True)) \<and>
   (isDescRange t rng = Inr False \<longrightarrow>
      rangeBoundaries c t rng =
        (if \<not> Exclusive rng then buildInclusiveBoundaries c t (Min_key rng) (Max_key rng) False
         else buildExclusiveBoundaries c t (Min_key rng) (Max_key rng) False))"
proof -
  have bit: "1 \<le> length (values' m) \<and> length (values' m) \<le> 64 \<longrightarrow>
      IsDesc (Order t) (of_nat (length (values' m)) - 1) =
        Inr (bit (Order t) (64 - length (values' m)))"
  proof
    assume a: "1 \<le> length (values' m) \<and> length (values' m) \<le> 64"
    then have "length (values' m) < 2 ^ 63"
      by (rule_tac le_less_trans [of _ 64]) simp_all
    from IsDesc_last_index [OF this, of "Order t"] a
    show "IsDesc (Order t) (of_nat (length (values' m)) - 1) =
        Inr (bit (Order t) (64 - length (values' m)))" by (cases "values' m") auto
  qed
  show ?thesis
    using bit rangeBoundaries_asc [of t rng c] rangeBoundaries_desc [of t rng c]
    by (simp add: isDescRange_def)
qed

theorem range_direction_witness:
  "isDescRange (New 12 (- 1))
      \<lparr>Min_key = Some (NewKey [(5 :: byte, 1 :: byte)]), Max_key = None, Exclusive = False\<rparr>
     = Inr True \<and>
   rangeBoundaries demoCodec (New 12 (- 1))
      \<lparr>Min_key = Some (NewKey [(5, 1)]), Max_key = None, Exclusive = False\<rparr>
     = Inr ([12, 68], [12, 5, 1, 255]) \<and>
   isDescRange (New 12 0)
      \<lparr>Min_key = None, Max_key = Some (NewKey [(5 :: byte, 1 :: byte)]), Exclusive = True\<rparr>
     = Inr False \<and>
   rangeBoundaries demoCodec (New 12 0)
      \<lparr>Min_key = None, Max_key = Some (NewKey [(5, 1)]), Exclusive = True\<rparr>
     = Inr ([12, 4], [12, 5, 1]) \<and>
   isDescRange (New 12 (- 1))
      \<lparr>Min_key = None, Max_key = (None :: (byte \<times> byte) Key option), Exclusive = False\<rparr>
     = Inr False"
proof -
  let ?k = "NewKey [(5 :: byte, 1 :: byte)]"
  let ?d = "New 12 (- 1)"
  let ?a = "New 12 0"
  let ?r1 = "\<lparr>Min_key = Some ?k, Max_key = None, Exclusive = False\<rparr>"
  let ?r2 = "\<lparr>Min_key = None, Max_key = Some ?k, Exclusive = True\<rparr>"
  let ?r3 = "\<lparr>Min_key = None, Max_key = (None :: (byte \<times> byte) Key option), Exclusive = False\<rparr>"
  have len: "1 \<le> length (values' ?k) \<and> length (values' ?k) \<le> 64"
    by (simp add: NewKey_def)
  have l1: "64 - length (values' ?k) = 63" by (simp add: NewKey_def)
  have b1: "bit (Order ?d) 63" by (simp add: New_def)
  have b2: "\<not> bit (Order ?a) 63" by (simp add: New_def)
  have d1: "isDescRange ?d ?r1 = Inr True"
    using range_direction [of ?r1 ?k ?d demoCodec] len b1 unfolding l1 by simp
  have d2: "isDescRange ?a ?r2 = Inr False"
    using range_direction [of ?r2 ?k ?a demoCodec] len b2 unfolding l1 by simp
  have d3: "isDescRange ?d ?r3 = Inr False"
    using range_direction [of ?r3 ?k ?d demoCodec] by simp
  have r1: "rangeBoundaries demoCodec ?d ?r1 = buildInclusiveBoundaries demoCodec ?d None (Some ?k) True"
    using range_direction [of ?r1 ?k ?d demoCodec] d1 by simp
  have r2: "rangeBoundaries demoCodec ?a ?r2 = buildExclusiveBoundaries demoCodec ?a None (Some ?k) False"
    using range_direction [of ?r2 ?k ?a demoCodec] d2 by simp
  have e1: "buildInclusiveBoundaries demoCodec ?d None (Some ?k) True = Inr ([12, 68], [12, 5, 1, 255])"
    by (simp add: buildInclusiveBoundaries_def buildMinKeyForType_def buildEndKeyInclusive_def
        demoCodec_def NewKey_def New_def)
  have e2: "buildExclusiveBoundaries demoCodec ?a None (Some ?k) False = Inr ([12, 4], [12, 5, 1])"
    by (simp add: buildExclusiveBoundaries_def buildMinKeyForType_def buildEndKeyExclusive_def
        demoCodec_def NewKey_def New_def)
  note f1 = trans [OF r1 e1] and f2 = trans [OF r2 e2]
  show ?thesis by (intro conjI d1 d2 d3 f1 f2)
qed

section \<open>Boundary keys\<close>

lemma less_append_byte: "(b :: bytes) < b @ [x]"
  by (induction b) simp_all

lemma le_less_append_byte: "(lo :: bytes) \<le> hi \<Longrightarrow> lo < hi @ [x]"
  by (rule order.strict_trans1 [OF _ less_append_byte])

lemma build_keys_of_Encode:
  assumes "Encode c k (Namespace t) (Order t) = Inr b"
  shows "buildStartKeyInclusive c t k desc = Inr b"
    and "buildStartKeyExclusive c t k desc = Inr (b @ [0xFF])"
    and "buildEndKeyInclusive c t k desc = Inr (b @ [0xFF])"
    and "buildEndKeyExclusive c t k desc = Inr b"
  using assms
  by (simp_all add: buildStartKeyInclusive_def buildStartKeyExclusive_def
      buildEndKeyInclusive_def buildEndKeyExclusive_def)

lemma boundaries_both_present:
  assumes "Encode c kmin (Namespace t) (Order t) = Inr lo"
    and "Encode c kmax (Namespace t) (Order t) = Inr hi"
  shows "buildInclusiveBoundaries c t (Some kmin) (Some kmax) desc = Inr (lo, hi @ [0xFF])"
    and "buildExclusiveBoundaries c t (Some kmin) (Some kmax) desc = Inr (lo @ [0xFF], hi)"
  using assms
  by (simp_all add: buildInclusiveBoundaries_def buildExclusiveBoundaries_def
      build_keys_of_Encode)

lemma inclusive_endpoints:
  assumes "(lo :: bytes) \<le> hi"
  shows "inBounds lo (hi @ [0xFF]) lo \<and> inBounds lo (hi @ [0xFF]) hi"
  using assms by (simp add: inBounds_def le_less_append_byte less_append_byte)

lemma exclusive_endpoints:
  "\<not> inBounds (lo @ [0xFF]) hi lo \<and> \<not> inBounds (lo @ [0xFF]) hi hi"
  using less_append_byte [of lo "0xFF"] by (simp add: inBounds_def not_le)

text \<open>
  Claim C1.  For a bound key \<open>k\<close> whose encoding is \<open>b\<close>: the inclusive lower bound
  is \<open>b\<close>, the exclusive lower bound is \<open>b\<close> followed by \<open>0xFF\<close>, the inclusive
  upper bound is \<open>b\<close> followed by \<open>0xFF\<close>, the exclusive upper bound is \<open>b\<close>.
  With both keys present the inclusive boundaries are \<open>[lo, hi || 0xFF)\<close>, which
  holds both encoded endpoints when \<open>lo \<le> hi\<close>, and the exclusive boundaries are
  \<open>[lo || 0xFF, hi)\<close>, which holds neither.
\<close>

theorem boundary_synthesis:
  "(Encode c k (Namespace t) (Order t) = Inr b \<longrightarrow>
      buildStartKeyInclusive c t k desc = Inr b \<and>
      buildStartKeyExclusive c t k desc = Inr (b @ [0xFF]) \<and>
      buildEndKeyInclusive c t k desc = Inr (b @ [0xFF]) \<and>
      buildEndKeyExclusive c t k desc = Inr b) \<and>
   (Encode c kmin (Namespace t) (Order t) = Inr lo \<and>
    Encode c kmax (Namespace t) (Order t) = Inr hi \<longrightarrow>
      buildInclusiveBoundaries c t (Some kmin) (Some kmax) desc = Inr (lo, hi @ [0xFF]) \<and>
      buildExclusiveBoundaries c t (Some kmin) (Some kmax) desc = Inr (lo @ [0xFF], hi) \<and>
      (lo \<le> hi \<longrightarrow> inBounds lo (hi @ [0xFF]) lo \<and> inBounds lo (hi @ [0xFF]) hi) \<and>
      \<not> inBounds (lo @ [0xFF]) hi lo \<and> \<not> inBounds (lo @ [0xFF]) hi hi)"
  using build_keys_of_Encode [of c k t b desc] boundaries_both_present [of c kmin t lo kmax hi desc]
    inclusive_endpoints [of lo hi] exclusive_endpoints [of lo hi]
  by (intro conjI impI) blast+

theorem boundary_synthesis_witness:
  "Encode demoCodec (NewKey [(5, 1), (5, 10)]) (Namespace (New 12 0)) (Order (New 12 0))
     = Inr [12, 5, 1, 5, 10] \<and>
   Encode demoCodec (NewKey [(5, 1), (5, 20)]) (Namespace (New 12 0)) (Order (New 12 0))
     = Inr [12, 5, 1, 5, 20] \<and>
   buildStartKeyInclusive demoCodec (New 12 0) (NewKey [(5, 1), (5, 10)]) False
     = Inr [12, 5, 1, 5, 10] \<and>
   buildStartKeyExclusive demoCodec (New 12 0) (NewKey [(5, 1), (5, 10)]) False
     = Inr [12, 5, 1, 5, 10, 0xFF] \<and>
   buildEndKeyInclusive demoCodec (New 12 0) (NewKey [(5, 1), (5, 10)]) False
     = Inr [12, 5, 1, 5, 10, 0xFF] \<and>
   buildEndKeyExclusive demoCodec (New 12 0) (NewKey [(5, 1), (5, 10)]) False
     = Inr [12, 5, 1, 5, 10] \<and>
   buildInclusiveBoundaries demoCodec (New 12 0)
       (Some (NewKey [(5, 1), (5, 10)])) (Some (NewKey [(5, 1), (5, 20)])) False
     = Inr ([12, 5, 1, 5, 10], [12, 5, 1, 5, 20, 0xFF]) \<and>
   buildExclusiveBoundaries demoCodec (New 12 0)
       (Some (NewKey [(5, 1), (5, 10)])) (Some (NewKey [(5, 1), (5, 20)])) False
     = Inr ([12, 5, 1, 5, 10, 0xFF], [12, 5, 1, 5, 20]) \<and>
   [12, 5, 1, 5, 10] \<le> ([12, 5, 1, 5, 20] :: bytes) \<and>
   inBounds [12, 5, 1, 5, 10] [12, 5, 1, 5, 20, 0xFF] [12, 5, 1, 5, 10] \<and>
   inBounds [12, 5, 1, 5, 10] [12, 5, 1, 5, 20, 0xFF] [12, 5, 1, 5, 20] \<and>
   \<not> inBounds [12, 5, 1, 5, 10, 0xFF] [12, 5, 1, 5, 20] [12, 5, 1, 5, 10] \<and>
   \<not> inBounds [12, 5, 1, 5, 10, 0xFF] [12, 5, 1, 5, 20] [12, 5, 1, 5, 20]"
proof -
  let ?t = "New 12 0"
  let ?k1 = "NewKey [(5 :: byte, 1 :: byte), (5, 10)]"
  let ?k2 = "NewKey [(5 :: byte, 1 :: byte), (5, 20)]"
  have e1: "Encode demoCodec ?k1 (Namespace ?t) (Order ?t) = Inr [12, 5, 1, 5, 10]"
    by (simp add: demoCodec_def NewKey_def New_def)
  have e2: "Encode demoCodec ?k2 (Namespace ?t) (Order ?t) = Inr [12, 5, 1, 5, 20]"
    by (simp add: demoCodec_def NewKey_def New_def)
  have le: "[12, 5, 1, 5, 10] \<le> ([12, 5, 1, 5, 20] :: bytes)" by simp
  from boundary_synthesis [of demoCodec ?k1 ?t "[12, 5, 1, 5, 10]" False ?k1
        "[12, 5, 1, 5, 10]" ?k2 "[12, 5, 1, 5, 20]"] e1 e2 le
  show ?thesis by simp
qed

section \<open>Open bounds\<close>

lemma open_bound_arity_one:
  assumes "values' k = [v]"
  shows "buildMinKeyForType c t (Some k) desc = Inr (EncodeInt c (Namespace t) @ [(if desc then MinEnctypeDesc c (Type c v) else MinEnctype c (Type c v))])"
    and "buildMaxKeyForType c t (Some k) desc = Inr (EncodeInt c (Namespace t) @ [(if desc then MaxEnctypeDesc c (Type c v) else MaxEnctype c (Type c v))])"
  using assms
  by (simp_all add: buildMinKeyForType_def buildMaxKeyForType_def)

lemma open_bound_arity_more:
  assumes "1 < length (values' k)"
    and "Encode c (NewKey (butlast (values' k))) (Namespace t) (Order t) = Inr buf"
  shows "buildMinKeyForType c t (Some k) desc = Inr (buf @ [(if desc then MinEnctypeDesc c (Type c (last (values' k))) else MinEnctype c (Type c (last (values' k))))])"
    and "buildMaxKeyForType c t (Some k) desc = Inr (buf @ [(if desc then MaxEnctypeDesc c (Type c (last (values' k))) else MaxEnctype c (Type c (last (values' k))))])"
proof -
  from assms(1) have ne: "values' k \<noteq> []" by auto
  have t: "take (length (values' k) - Suc 0) (values' k) = butlast (values' k)"
    by (simp add: butlast_conv_take)
  have l: "values' k ! (length (values' k) - Suc 0) = last (values' k)"
    using ne by (simp add: last_conv_nth)
  show "buildMinKeyForType c t (Some k) desc = Inr (buf @ [(if desc then MinEnctypeDesc c (Type c (last (values' k))) else MinEnctype c (Type c (last (values' k))))])"
    using assms ne by (simp add: buildMinKeyForType_def t l Let_def)
  show "buildMaxKeyForType c t (Some k) desc = Inr (buf @ [(if desc then MaxEnctypeDesc c (Type c (last (values' k))) else MaxEnctype c (Type c (last (values' k))))])"
    using assms ne by (simp add: buildMaxKeyForType_def t l Let_def)
qed

lemma open_bound_no_components:
  assumes "values' k = []"
  shows "buildMinKeyForType c t (Some k) desc = Inl (Panicked SliceBounds)"
    and "buildMaxKeyForType c t (Some k) desc = Inl (Panicked SliceBounds)"
  using assms by (simp_all add: buildMinKeyForType_def buildMaxKeyForType_def)

lemma boundaries_one_side:
  "buildInclusiveBoundaries c t None (Some k) desc =
     (case buildMinKeyForType c t (Some k) desc of
        Inl f \<Rightarrow> Inl f
      | Inr start \<Rightarrow>
          (case buildEndKeyInclusive c t k desc of Inl f \<Rightarrow> Inl f | Inr e \<Rightarrow> Inr (start, e)))"
  "buildInclusiveBoundaries c t (Some k) None desc =
     (case buildStartKeyInclusive c t k desc of
        Inl f \<Rightarrow> Inl f
      | Inr start \<Rightarrow>
          (case buildMaxKeyForType c t (Some k) desc of Inl f \<Rightarrow> Inl f | Inr e \<Rightarrow> Inr (start, e)))"
  "buildExclusiveBoundaries c t None (Some k) desc =
     (case buildMinKeyForType c t (Some k) desc of
        Inl f \<Rightarrow> Inl f
      | Inr start \<Rightarrow>
          (case buildEndKeyExclusive c t k desc of Inl f \<Rightarrow> Inl f | Inr e \<Rightarrow> Inr (start, e)))"
  "buildExclusiveBoundaries c t (Some k) None desc =
     (case buildStartKeyExclusive c t k desc of
        Inl f \<Rightarrow> Inl f
      | Inr start \<Rightarrow>
          (case buildMaxKeyForType c t (Some k) desc of Inl f \<Rightarrow> Inl f | Inr e \<Rightarrow> Inr (start, e)))"
  by (simp_all add: buildInclusiveBoundaries_def buildExclusiveBoundaries_def split: sum.splits)


text \<open>
  Claim C3.  When one side of a range is absent and the other is a key: for a key of
  one component the open bound is \<open>EncodeInt(namespace)\<close> followed by the \<open>Min\<close>
  (for the lower bound) or \<open>Max\<close> (for the upper bound) sentinel tag of the type of
  that component, the descending tag when the direction is descending; for a key of
  \<open>n > 1\<close> components it is the encoding of the first \<open>n - 1\<close> components followed
  by that sentinel tag of the type of component \<open>n\<close>.  The boundary builders use
  these open bounds for the absent side.
\<close>

theorem open_bound_synthesis:
  "(values' k = [v] \<longrightarrow>
      buildMinKeyForType c t (Some k) desc =
        Inr (EncodeInt c (Namespace t) @
             [if desc then MinEnctypeDesc c (Type c v) else MinEnctype c (Type c v)]) \<and>
      buildMaxKeyForType c t (Some k) desc =
        Inr (EncodeInt c (Namespace t) @
             [if desc then MaxEnctypeDesc c (Type c v) else MaxEnctype c (Type c v)])) \<and>
   (1 < length (values' k) \<and>
    Encode c (NewKey (butlast (values' k))) (Namespace t) (Order t) = Inr buf \<longrightarrow>
      buildMinKeyForType c t (Some k) desc =
        Inr (buf @ [if desc then MinEnctypeDesc c (Type c (last (values' k)))
                    else MinEnctype c (Type c (last (values' k)))]) \<and>
      buildMaxKeyForType c t (Some k) desc =
        Inr (buf @ [if desc then MaxEnctypeDesc c (Type c (last (values' k)))
                    else MaxEnctype c (Type c (last (values' k)))])) \<and>
   buildInclusiveBoundaries c t None (Some k) desc =
     (case buildMinKeyForType c t (Some k) desc of
        Inl f \<Rightarrow> Inl f
      | Inr start \<Rightarrow>
          (case buildEndKeyInclusive c t k desc of Inl f \<Rightarrow> Inl f | Inr e \<Rightarrow> Inr (start, e))) \<and>
   buildInclusiveBoundaries c t (Some k) None desc =
     (case buildStartKeyInclusive c t k desc of
        Inl f \<Rightarrow> Inl f
      | Inr start \<Rightarrow>
          (case buildMaxKeyForType c t (Some k) desc of Inl f \<Rightarrow> Inl f | Inr e \<Rightarrow> Inr (start, e))) \<and>
   buildExclusiveBoundaries c t None (Some k) desc =
     (case buildMinKeyForType c t (Some k) desc of
        Inl f \<Rightarrow> Inl f
      | Inr start \<Rightarrow>
          (case buildEndKeyExclusive c t k desc of Inl f \<Rightarrow> Inl f | Inr e \<Rightarrow> Inr (start, e))) \<and>
   buildExclusiveBoundaries c t (Some k) None desc =
     (case buildStartKeyExclusive c t k desc of
        Inl f \<Rightarrow> Inl f
      | Inr start \<Rightarrow>
          (case buildMaxKeyForType c t (Some k) desc of Inl f \<Rightarrow> Inl f | Inr e \<Rightarrow> Inr (start, e)))"
  using open_bound_arity_one [of k v c t desc] open_bound_arity_more [of k c t buf desc]
    boundaries_one_side [of c t k desc]
  by (intro conjI impI) blast+

theorem open_bound_synthesis_witness:
  "values' (NewKey [(5 :: byte, 1 :: byte)]) = [(5, 1)] \<and>
   buildMinKeyForType demoCodec (New 12 0) (Some (NewKey [(5, 1)])) False = Inr [12, 4] \<and>
   buildMaxKeyForType demoCodec (New 12 0) (Some (NewKey [(5, 1)])) False = Inr [12, 6] \<and>
   buildMinKeyForType demoCodec (New 12 0) (Some (NewKey [(5, 1)])) True = Inr [12, 68] \<and>
   buildMaxKeyForType demoCodec (New 12 0) (Some (NewKey [(5, 1)])) True = Inr [12, 70] \<and>
   1 < length (values' (NewKey [(5 :: byte, 1 :: byte), (7, 2)])) \<and>
   Encode demoCodec (NewKey (butlast (values' (NewKey [(5, 1), (7, 2)]))))
      (Namespace (New 12 0)) (Order (New 12 0)) = Inr [12, 5, 1] \<and>
   buildMinKeyForType demoCodec (New 12 0) (Some (NewKey [(5, 1), (7, 2)])) False
     = Inr [12, 5, 1, 6] \<and>
   buildMaxKeyForType demoCodec (New 12 0) (Some (NewKey [(5, 1), (7, 2)])) True
     = Inr [12, 5, 1, 72]"
proof -
  let ?t = "New 12 0"
  let ?k1 = "NewKey [(5 :: byte, 1 :: byte)]"
  let ?k2 = "NewKey [(5 :: byte, 1 :: byte), (7, 2)]"
  have v1: "values' ?k1 = [(5, 1)]" by (simp add: NewKey_def)
  have v2: "1 < length (values' ?k2)" by (simp add: NewKey_def)
  have e2: "Encode demoCodec (NewKey (butlast (values' ?k2))) (Namespace ?t) (Order ?t)
              = Inr [12, 5, 1]"
    by (simp add: demoCodec_def NewKey_def New_def)
  have l2: "last (values' ?k2) = (7, 2)" by (simp add: NewKey_def)
  have ns: "EncodeInt demoCodec (Namespace ?t) = [12]" by (simp add: demoCodec_def New_def)
  have tags: "MinEnctype demoCodec (Type demoCodec (5 :: byte, 1 :: byte)) = 4"
    "MaxEnctype demoCodec (Type demoCodec (5 :: byte, 1 :: byte)) = 6"
    "MinEnctypeDesc demoCodec (Type demoCodec (5 :: byte, 1 :: byte)) = 68"
    "MaxEnctypeDesc demoCodec (Type demoCodec (5 :: byte, 1 :: byte)) = 70"
    "MinEnctype demoCodec (Type demoCodec (7 :: byte, 2 :: byte)) = 6"
    "MaxEnctypeDesc demoCodec (Type demoCodec (7 :: byte, 2 :: byte)) = 72"
    by (simp_all add: demoCodec_def)
  from open_bound_synthesis [of ?k1 "(5, 1)" demoCodec ?t False "[]"]
    open_bound_synthesis [of ?k1 "(5, 1)" demoCodec ?t True "[]"]
    open_bound_synthesis [of ?k2 "(5, 1)" demoCodec ?t False "[12, 5, 1]"]
    open_bound_synthesis [of ?k2 "(5, 1)" demoCodec ?t True "[12, 5, 1]"]
    v1 v2 e2
  show ?thesis by (simp add: l2 ns tags)
qed

text \<open>
  Claim C10, as amended.  \<open>IsDesc(-1)\<close> returns false without failing, for every
  order.  So the direction test of \<open>IterateOnRange\<close> on a range whose \<open>Min\<close>, or
  whose \<open>Max\<close> when \<open>Min\<close> is absent, is a key without components answers
  ascending instead of failing: \<open>Min\<close> and \<open>Max\<close> are not swapped, and when both
  are present the bounds are built from their encodings as for any ascending range.
\<close>

theorem no_component_direction:
  "IsDesc ord (- 1) = Inr False \<and>
   (Min_key rng = Some k \<and> values' k = [] \<or>
    Min_key rng = None \<and> Max_key rng = Some k \<and> values' k = [] \<longrightarrow>
      isDescRange t rng = Inr False \<and>
      rangeBoundaries c t rng =
        (if \<not> Exclusive rng
         then buildInclusiveBoundaries c t (Min_key rng) (Max_key rng) False
         else buildExclusiveBoundaries c t (Min_key rng) (Max_key rng) False)) \<and>
   (Min_key rng = Some k \<and> values' k = [] \<and> Max_key rng = Some k2 \<and>
    Encode c k (Namespace t) (Order t) = Inr lo \<and>
    Encode c k2 (Namespace t) (Order t) = Inr hi \<longrightarrow>
      rangeBoundaries c t rng =
        Inr (if \<not> Exclusive rng then (lo, hi @ [0xFF]) else (lo @ [0xFF], hi)))"
proof -
  have a: "Min_key rng = Some k \<and> values' k = [] \<or>
      Min_key rng = None \<and> Max_key rng = Some k \<and> values' k = [] \<longrightarrow>
        isDescRange t rng = Inr False \<and>
        rangeBoundaries c t rng =
          (if \<not> Exclusive rng
           then buildInclusiveBoundaries c t (Min_key rng) (Max_key rng) False
           else buildExclusiveBoundaries c t (Min_key rng) (Max_key rng) False)"
    using isDescRange_no_components [of rng k t] rangeBoundaries_asc [of t rng c] by blast
  have b: "Min_key rng = Some k \<and> values' k = [] \<and> Max_key rng = Some k2 \<and>
      Encode c k (Namespace t) (Order t) = Inr lo \<and>
      Encode c k2 (Namespace t) (Order t) = Inr hi \<longrightarrow>
        rangeBoundaries c t rng =
          Inr (if \<not> Exclusive rng then (lo, hi @ [0xFF]) else (lo @ [0xFF], hi))"
  proof
    assume h: "Min_key rng = Some k \<and> values' k = [] \<and> Max_key rng = Some k2 \<and>
      Encode c k (Namespace t) (Order t) = Inr lo \<and>
      Encode c k2 (Namespace t) (Order t) = Inr hi"
    then have "isDescRange t rng = Inr False"
      using isDescRange_no_components [of rng k t] by blast
    from rangeBoundaries_asc [OF this, of c] h
    show "rangeBoundaries c t rng =
          Inr (if \<not> Exclusive rng then (lo, hi @ [0xFF]) else (lo @ [0xFF], hi))"
      by (simp add: boundaries_both_present)
  qed
  from IsDesc_minus_one [of ord] a b show ?thesis by blast
qed

theorem no_component_direction_witness:
  "IsDesc 0 (- 1) = Inr False \<and>
   values' (NewKey ([] :: (byte \<times> byte) list)) = [] \<and>
   isDescRange (New 12 (- 1))
     \<lparr>Min_key = Some (NewKey ([] :: (byte \<times> byte) list)), Max_key = Some (NewKey [(5, 1)]),
      Exclusive = False\<rparr> = Inr False \<and>
   Encode demoCodec (NewKey []) (Namespace (New 12 (- 1))) (Order (New 12 (- 1))) = Inr [12] \<and>
   Encode demoCodec (NewKey [(5, 1)]) (Namespace (New 12 (- 1))) (Order (New 12 (- 1)))
     = Inr [12, 5, 1] \<and>
   rangeBoundaries demoCodec (New 12 (- 1))
     \<lparr>Min_key = Some (NewKey []), Max_key = Some (NewKey [(5, 1)]), Exclusive = False\<rparr>
     = Inr ([12], [12, 5, 1, 0xFF]) \<and>
   isDescRange (New 12 (- 1))
     \<lparr>Min_key = None, Max_key = Some (NewKey ([] :: (byte \<times> byte) list)), Exclusive = True\<rparr>
     = Inr False"
proof -
  let ?t = "New 12 (- 1)"
  let ?k0 = "NewKey ([] :: (byte \<times> byte) list)"
  let ?k1 = "NewKey [(5 :: byte, 1 :: byte)]"
  let ?r1 = "\<lparr>Min_key = Some ?k0, Max_key = Some ?k1, Exclusive = False\<rparr>"
  let ?r2 = "\<lparr>Min_key = None, Max_key = Some ?k0, Exclusive = True\<rparr>"
  have v: "values' ?k0 = []" by (simp add: NewKey_def)
  have e0: "Encode demoCodec ?k0 (Namespace ?t) (Order ?t) = Inr [12]"
    by (simp add: demoCodec_def NewKey_def New_def)
  have e1: "Encode demoCodec ?k1 (Namespace ?t) (Order ?t) = Inr [12, 5, 1]"
    by (simp add: demoCodec_def NewKey_def New_def)
  note T1 = no_component_direction [of 0 ?r1 ?k0 ?t demoCodec ?k1 "[12]" "[12, 5, 1]"]
  note T2 = no_component_direction [of 0 ?r2 ?k0 ?t demoCodec ?k1 "[12]" "[12, 5, 1]"]
  have i: "IsDesc 0 (- 1) = Inr False" using T1 by blast
  have d1: "isDescRange ?t ?r1 = Inr False"
    using T1 [THEN conjunct2, THEN conjunct1] v by simp
  have b1: "rangeBoundaries demoCodec ?t ?r1 = Inr ([12], [12, 5, 1, 0xFF])"
    using T1 [THEN conjunct2, THEN conjunct2] v e0 e1 by simp
  have d2: "isDescRange ?t ?r2 = Inr False"
    using T2 [THEN conjunct2, THEN conjunct1] v by simp
  show ?thesis by (intro conjI i v d1 e0 e1 b1 d2)
qed

text \<open>
  Claim C10 as stated fails when \<open>Min\<close> is absent and \<open>Max\<close> is a key without
  components: the direction test answers ascending, and \<open>IterateOnRange\<close> then
  panics, on the slice \<open>max.values[:len(max.values)-1]\<close> of \<open>buildMinKeyForType\<close>.
\<close>

theorem no_component_range_counterexample:
  "isDescRange (New 12 0)
     \<lparr>Min_key = None, Max_key = Some (NewKey ([] :: (byte \<times> byte) list)), Exclusive = False\<rparr>
     = Inr False \<and>
   IterateOnRange demoCodec (New 12 0)
     (Some \<lparr>Min_key = None, Max_key = Some (NewKey []), Exclusive = False\<rparr>)
     False collectKeys [] (demoSession [])
     = (Some (Panicked SliceBounds), [], None)"
  by (simp add: IterateOnRange_def rangeBoundaries_def isDescRange_def IsDesc_minus_one
      buildInclusiveBoundaries_def buildMinKeyForType_def NewKey_def New_def)

section \<open>Stored values\<close>

lemma map_of_putKV: "map_of (putKV k v l) = (map_of l)(k \<mapsto> v)"
  by (induction l) (auto simp: fun_eq_iff)

lemma Session_Get_Put: "Session_Get k (snd (Session_Put k v s)) = Inr v"
  by (simp add: Session_Get_def Session_Put_def map_of_putKV)

lemma Insert_empty: "Insert c t key [] s = Insert c t key [0] s"
  by (simp add: Insert_def defaultValue_def)

lemma Put_empty: "Put c t key [] s = Put c t key [0] s"
  by (simp add: Put_def defaultValue_def)

lemma Put_stores:
  assumes "Encode c key (Namespace t) (Order t) = Inr kb"
  shows "Put c t key val s =
           (None, s\<lparr>kv := putKV kb (if val = [] then [0] else val) (kv s)\<rparr>)"
  using assms by (simp add: Put_def Session_Put_def defaultValue_def)

lemma Insert_stores:
  assumes "Encode c key (Namespace t) (Order t) = Inr kb" and "map_of (kv s) kb = None"
  shows "Insert c t key val s =
           (None, s\<lparr>kv := putKV kb (if val = [] then [0] else val) (kv s)\<rparr>)"
  using assms by (simp add: Insert_def Session_Insert_def defaultValue_def)

lemma Get_of_stored:
  assumes "Encode c key (Namespace t) (Order t) = Inr kb" and "Session_Get kb s = Inr v"
  shows "Get c t key s = Inr (if v = [] \<or> hd v = 0 then None else Some v)"
  using assms by (cases v) (simp_all add: Get_def)

text \<open>
  Claim C4.  \<open>Insert\<close> and \<open>Put\<close> of a zero-length value store the single byte
  \<open>0x00\<close> instead; \<open>Get\<close> returns no value, and no error, exactly when the stored
  bytes are empty or start with \<open>0x00\<close>, and the stored bytes otherwise.  So \<open>Put\<close> of
  an empty value followed by \<open>Get\<close> of the same key returns no value.
\<close>

theorem empty_value_sentinel:
  "Insert c t key [] s = Insert c t key [0] s \<and>
   Put c t key [] s = Put c t key [0] s \<and>
   (Encode c key (Namespace t) (Order t) = Inr kb \<longrightarrow>
      Put c t key [] s = (None, s\<lparr>kv := putKV kb [0] (kv s)\<rparr>) \<and>
      Session_Get kb (snd (Put c t key [] s)) = Inr [0] \<and>
      (map_of (kv s) kb = None \<longrightarrow>
         Insert c t key [] s = (None, s\<lparr>kv := putKV kb [0] (kv s)\<rparr>) \<and>
         Session_Get kb (snd (Insert c t key [] s)) = Inr [0]) \<and>
      (Session_Get kb s = Inr v \<longrightarrow>
         Get c t key s = Inr (if v = [] \<or> hd v = 0 then None else Some v)) \<and>
      Get c t key (snd (Put c t key [] s)) = Inr None)"
proof -
  have g: "Session_Get kb (s\<lparr>kv := putKV kb [0] (kv s)\<rparr>) = Inr [0]"
    by (simp add: Session_Get_def map_of_putKV)
  have "Encode c key (Namespace t) (Order t) = Inr kb \<Longrightarrow>
      Get c t key (s\<lparr>kv := putKV kb [0] (kv s)\<rparr>) = Inr None"
    using Get_of_stored [of c key t kb "s\<lparr>kv := putKV kb [0] (kv s)\<rparr>" "[0]"] g by simp
  then show ?thesis
    using Insert_empty [of c t key s] Put_empty [of c t key s]
      Put_stores [of c key t kb "[]" s] Insert_stores [of c key t kb s "[]"]
      Get_of_stored [of c key t kb s v] g
    by simp
qed

theorem empty_value_sentinel_witness:
  "Encode demoCodec (NewKey [(5, 1)]) (Namespace (New 12 0)) (Order (New 12 0)) = Inr [12, 5, 1] \<and>
   map_of (kv (demoSession [])) [12, 5, 1] = None \<and>
   Put demoCodec (New 12 0) (NewKey [(5, 1)]) [] (demoSession [])
     = (None, demoSession [([12, 5, 1], [0])]) \<and>
   Insert demoCodec (New 12 0) (NewKey [(5, 1)]) [] (demoSession [])
     = (None, demoSession [([12, 5, 1], [0])]) \<and>
   Get demoCodec (New 12 0) (NewKey [(5, 1)]) (demoSession [([12, 5, 1], [0])]) = Inr None \<and>
   Session_Get [12, 5, 1] (demoSession [([12, 5, 1], [7, 0])]) = Inr [7, 0] \<and>
   Get demoCodec (New 12 0) (NewKey [(5, 1)]) (demoSession [([12, 5, 1], [7, 0])])
     = Inr (Some [7, 0])"
proof -
  let ?t = "New 12 0"
  let ?k = "NewKey [(5 :: byte, 1 :: byte)]"
  let ?s = "demoSession []"
  let ?s' = "demoSession [([12, 5, 1], [7, 0])]"
  have e: "Encode demoCodec ?k (Namespace ?t) (Order ?t) = Inr [12, 5, 1]"
    by (simp add: demoCodec_def NewKey_def New_def)
  have m: "map_of (kv ?s) [12, 5, 1] = None" by (simp add: demoSession_def)
  have u: "?s\<lparr>kv := putKV [12, 5, 1] [0] (kv ?s)\<rparr> = demoSession [([12, 5, 1], [0])]"
    by (simp add: demoSession_def)
  have g: "Session_Get [12, 5, 1] ?s' = Inr [7, 0]"
    by (simp add: Session_Get_def demoSession_def)
  note T = empty_value_sentinel [of demoCodec ?t ?k ?s "[12, 5, 1]" "[]"]
  note T' = empty_value_sentinel [of demoCodec ?t ?k ?s' "[12, 5, 1]" "[7, 0]"]
  have p: "Put demoCodec ?t ?k [] ?s = (None, demoSession [([12, 5, 1], [0])])"
    using T e unfolding u by blast
  have i: "Insert demoCodec ?t ?k [] ?s = (None, demoSession [([12, 5, 1], [0])])"
    using T e m unfolding u by blast
  have "Get demoCodec ?t ?k (snd (Put demoCodec ?t ?k [] ?s)) = Inr None"
    using T e by blast
  then have g0: "Get demoCodec ?t ?k (demoSession [([12, 5, 1], [0])]) = Inr None"
    by (simp only: p snd_conv)
  have "Get demoCodec ?t ?k ?s' = Inr (if [7, 0] = ([] :: bytes) \<or> hd [7, 0] = (0 :: byte)
      then None else Some [7, 0])"
    using T' e g by blast
  then have g1: "Get demoCodec ?t ?k ?s' = Inr (Some [7, 0])" by simp
  show ?thesis by (intro conjI e m p i g0 g g1)
qed

section \<open>Conflict actions\<close>

text \<open>
  Claim C9.  \<open>OnInsertConflictDoNothing\<close> returns no document and no error.
  \<open>OnInsertConflictDoReplace\<close> with a nil key returns the triggering error
  unchanged, without touching the table; with a key it calls \<open>Replace\<close> and returns
  the incoming document with that key and the primary key of the table, or the error
  of \<open>Replace\<close> and no document.
\<close>

theorem conflict_actions:
  "OnInsertConflictDoNothing t key d e = (None, None, t) \<and>
   OnInsertConflictDoNothing3 t key d = (None, None, t) \<and>
   OnInsertConflictDoReplace ops t None d e = (Some (Plain d), e, t) \<and>
   (Replace ops t k d = (None, t') \<longrightarrow>
      OnInsertConflictDoReplace ops t (Some k) d e =
        (Some (documentWithKey d k (GetPrimaryKey ops t')), None, t')) \<and>
   (Replace ops t k d = (Some e', t') \<longrightarrow>
      OnInsertConflictDoReplace ops t (Some k) d e = (None, Some e', t'))"
  by (simp add: OnInsertConflictDoNothing_def OnInsertConflictDoNothing3_def
      OnInsertConflictDoReplace_def)

theorem conflict_actions_witness:
  "Replace demoTable [([1], ''old'')] [1] ''new'' = (None, [([1], ''new'')]) \<and>
   OnInsertConflictDoReplace demoTable [([1], ''old'')] (Some [1]) ''new''
       (Some ErrKeyAlreadyExists)
     = (Some (documentWithKey ''new'' [1] ''id''), None, [([1], ''new'')]) \<and>
   Replace demoTable [([1], ''old'')] [2] ''new'' = (Some ErrKeyNotFound, [([1], ''old'')]) \<and>
   OnInsertConflictDoReplace demoTable [([1], ''old'')] (Some [2]) ''new''
       (Some ErrKeyAlreadyExists)
     = (None, Some ErrKeyNotFound, [([1], ''old'')]) \<and>
   OnInsertConflictDoReplace demoTable [([1], ''old'')] None ''new'' (Some ErrKeyAlreadyExists)
     = (Some (Plain ''new''), Some ErrKeyAlreadyExists, [([1], ''old'')])"
proof -
  let ?t = "[([1 :: byte], ''old'')]"
  have r1: "Replace demoTable ?t [1] ''new'' = (None, [([1], ''new'')])"
    by (simp add: demoTable_def)
  have r2: "Replace demoTable ?t [2] ''new'' = (Some ErrKeyNotFound, ?t)"
    by (simp add: demoTable_def)
  have p: "GetPrimaryKey demoTable [([1 :: byte], ''new'')] = ''id''"
    by (simp add: demoTable_def)
  note T1 = conflict_actions [of ?t "Some [1]" "''new''" "Some ErrKeyAlreadyExists" demoTable
      "[1]" "[([1], ''new'')]" ErrKeyNotFound]
  note T2 = conflict_actions [of ?t "Some [2]" "''new''" "Some ErrKeyAlreadyExists" demoTable
      "[2]" ?t ErrKeyNotFound]
  have a: "OnInsertConflictDoReplace demoTable ?t (Some [1]) ''new'' (Some ErrKeyAlreadyExists)
     = (Some (documentWithKey ''new'' [1] ''id''), None, [([1], ''new'')])"
    using T1 r1 unfolding p by blast
  have b: "OnInsertConflictDoReplace demoTable ?t (Some [2]) ''new'' (Some ErrKeyAlreadyExists)
     = (None, Some ErrKeyNotFound, ?t)"
    using T2 r2 by blast
  have c: "OnInsertConflictDoReplace demoTable ?t None ''new'' (Some ErrKeyAlreadyExists)
     = (Some (Plain ''new''), Some ErrKeyAlreadyExists, ?t)"
    using T1 by blast
  show ?thesis by (intro conjI r1 a r2 b c)
qed

section \<open>The walk of IterateOnRange\<close>

declare iterLoop.simps [simp del]

lemma iterLoop_invalid:
  "\<not> it_Valid it \<Longrightarrow> iterLoop reverse fn it a = (map_option Failed (it_Error it), a, it)"
  by (subst iterLoop.simps) simp

lemma iterLoop_value_error:
  "it_Valid it \<Longrightarrow> it_Value it = Inl e \<Longrightarrow> iterLoop reverse fn it a = (Some (Failed e), a, it)"
  by (subst iterLoop.simps) simp

lemma iterLoop_callback_error:
  "it_Valid it \<Longrightarrow> it_Value it = Inr v \<Longrightarrow>
   fn \<lparr>values' = [], Encoded = Some (it_Key it)\<rparr> (if length v = 0 \<or> v ! 0 = 0 then None else Some v) a
     = (Some e, a') \<Longrightarrow>
   iterLoop reverse fn it a = (Some (Failed e), a', it)"
  by (subst iterLoop.simps) simp

lemma iterLoop_advance:
  "it_Valid it \<Longrightarrow> it_Value it = Inr v \<Longrightarrow>
   fn \<lparr>values' = [], Encoded = Some (it_Key it)\<rparr> (if length v = 0 \<or> v ! 0 = 0 then None else Some v) a
     = (None, a') \<Longrightarrow>
   iterLoop reverse fn it a = iterLoop reverse fn (if \<not> reverse then it_Next it else it_Prev it) a'"
  by (subst iterLoop.simps) simp

lemma value_or_nil:
  "(if length v = 0 \<or> v ! 0 = 0 then None else Some v) =
   (if v = [] \<or> hd v = (0 :: byte) then None else Some v)"
  by (cases v) simp_all

text \<open>The entries ahead of the cursor, in the order of the walk.\<close>

lemma ahead_invalid:
  assumes "\<not> it_Valid it" and "if reverse then pos it < int (length (items it)) else 0 \<le> pos it"
  shows "(if reverse then rev (take (nat (pos it + 1)) (items it))
          else drop (nat (pos it)) (items it)) = []"
  using assms by (auto simp: it_Valid_def split: if_splits)

lemma ahead_valid:
  assumes "it_Valid it"
  shows "(if reverse then rev (take (nat (pos it + 1)) (items it))
          else drop (nat (pos it)) (items it))
         = (it_Key it, it_Value it) #
           (if reverse then rev (take (nat (pos (it_Prev it) + 1)) (items (it_Prev it)))
            else drop (nat (pos (it_Next it))) (items (it_Next it)))"
proof -
  from assms have p: "0 \<le> pos it" and l: "nat (pos it) < length (items it)"
    by (auto simp: it_Valid_def)
  have s: "nat (pos it + 1) = Suc (nat (pos it))" using p by simp
  have x: "(it_Key it, it_Value it) = items it ! nat (pos it)"
    by (simp add: it_Key_def it_Value_def)
  show ?thesis
    using l by (simp add: s x it_Prev_def it_Next_def take_Suc_conv_app_nth Cons_nth_drop_Suc)
qed

lemma iterLoop_walk:
  assumes "if reverse then pos it < int (length (items it)) else 0 \<le> pos it"
  shows "\<exists>it'. iterLoop reverse fn it a =
           (case walkSpec fn (if reverse then rev (take (nat (pos it + 1)) (items it))
                              else drop (nat (pos it)) (items it)) a of
              (Some e, a') \<Rightarrow> (Some (Failed e), a', it')
            | (None, a') \<Rightarrow> (map_option Failed (termErr it), a', it')) \<and>
           items it' = items it \<and> termErr it' = termErr it \<and> closed it' = closed it"
  using assms
proof (induction reverse fn it a rule: iterLoop.induct)
  case (1 reverse fn it a)
  let ?ahead = "\<lambda>i. if reverse then rev (take (nat (pos i + 1)) (items i))
                     else drop (nat (pos i)) (items i)"
  show ?case
  proof (cases "it_Valid it")
    case False
    have "?ahead it = []" using ahead_invalid [OF False "1.prems"] .
    then show ?thesis
      using iterLoop_invalid [OF False, of reverse fn a] by (auto simp: it_Error_def)
  next
    case True
    note ah = ahead_valid [OF True, of reverse]
    show ?thesis
    proof (cases "it_Value it")
      case (Inl e)
      then show ?thesis
        using iterLoop_value_error [OF True Inl, of reverse fn a] ah by auto
    next
      case (Inr v)
      obtain x y where f: "fn \<lparr>values' = [], Encoded = Some (it_Key it)\<rparr>
          (if length v = 0 \<or> v ! 0 = 0 then None else Some v) a = (x, y)"
        by (cases "fn \<lparr>values' = [], Encoded = Some (it_Key it)\<rparr>
          (if length v = 0 \<or> v ! 0 = 0 then None else Some v) a") auto
      note f' = f [unfolded value_or_nil]
      show ?thesis
      proof (cases x)
        case (Some e)
        then show ?thesis
          using iterLoop_callback_error [OF True Inr, of fn a e y reverse] f f' ah Inr
          by auto
      next
        case None
        let ?n = "if \<not> reverse then it_Next it else it_Prev it"
        have pre: "if reverse then pos ?n < int (length (items ?n)) else 0 \<le> pos ?n"
          using True by (auto simp: it_Valid_def it_Next_def it_Prev_def)
        from "1.IH" [OF True Inr f [symmetric] None pre]
        obtain it' where ih: "iterLoop reverse fn ?n y =
           (case walkSpec fn (?ahead ?n) y of
              (Some e, a') \<Rightarrow> (Some (Failed e), a', it')
            | (None, a') \<Rightarrow> (map_option Failed (termErr ?n), a', it'))"
          and fl: "items it' = items ?n" "termErr it' = termErr ?n" "closed it' = closed ?n"
          by blast
        have same: "items ?n = items it" "termErr ?n = termErr it" "closed ?n = closed it"
          by (simp_all add: it_Next_def it_Prev_def)
        have step: "iterLoop reverse fn it a = iterLoop reverse fn ?n y"
          using iterLoop_advance [OF True Inr, of fn a y reverse] f None by simp
        have w: "walkSpec fn (?ahead it) a = walkSpec fn (?ahead ?n) y"
          using ah Inr f' None by (cases reverse) simp_all
        note ih' = ih [unfolded same(2)]
        have "iterLoop reverse fn it a =
           (case walkSpec fn (?ahead it) a of
              (Some e, a') \<Rightarrow> (Some (Failed e), a', it')
            | (None, a') \<Rightarrow> (map_option Failed (termErr it), a', it'))"
          by (simp only: step ih' w)
        then show ?thesis
          using fl same by (intro exI [of _ it']) simp
      qed
    qed
  qed
qed

lemma walkSpec_append:
  "walkSpec fn xs a = (None, a1) \<Longrightarrow> walkSpec fn (xs @ zs) a = walkSpec fn zs a1"
  by (induction fn xs a rule: walkSpec.induct) (auto split: prod.splits option.splits)

lemma walkSpec_value_error:
  "walkSpec fn xs a = (None, a1) \<Longrightarrow> walkSpec fn (xs @ (k, Inl e) # ys) a = (Some e, a1)"
  by (simp add: walkSpec_append)

lemma walkSpec_callback_error:
  "walkSpec fn xs a = (None, a1) \<Longrightarrow>
   fn \<lparr>values' = [], Encoded = Some k\<rparr> (if v = [] \<or> hd v = 0 then None else Some v) a1
     = (Some e, a2) \<Longrightarrow>
   walkSpec fn (xs @ (k, Inr v) # ys) a = (Some e, a2)"
  by (simp add: walkSpec_append)

lemma IterateOnRange_nil:
  "IterateOnRange c t None reverse fn a s =
   IterateOnRange c t (Some \<lparr>Min_key = None, Max_key = None, Exclusive = False\<rparr>) reverse fn a s"
  by (simp add: IterateOnRange_def)

lemma IterateOnRange_boundary_failure:
  "rangeBoundaries c t r = Inl f \<Longrightarrow> IterateOnRange c t (Some r) reverse fn a s = (Some f, a, None)"
  by (simp add: IterateOnRange_def)

lemma IterateOnRange_open_error:
  "rangeBoundaries c t r = Inr (lo, hi) \<Longrightarrow>
   Session_Iterator \<lparr>LowerBound = lo, UpperBound = hi\<rparr> s = Inl e \<Longrightarrow>
   IterateOnRange c t (Some r) reverse fn a s = (Some (Failed e), a, None)"
  by (simp add: IterateOnRange_def)

lemma Session_Iterator_fresh:
  "Session_Iterator opts s = Inr it \<Longrightarrow> closed it = 0 \<and> pos it = - 1 \<and> termErr it = iterErr s"
  by (auto simp: Session_Iterator_def split: option.splits)

lemma IterateOnRange_walk:
  assumes b: "rangeBoundaries c t r = Inr (lo, hi)"
    and i: "Session_Iterator \<lparr>LowerBound = lo, UpperBound = hi\<rparr> s = Inr it"
  shows "\<exists>it'. IterateOnRange c t (Some r) reverse fn a s =
           (case walkSpec fn (if reverse then rev (items it) else items it) a of
              (Some e, a') \<Rightarrow> (Some (Failed e), a', Some it')
            | (None, a') \<Rightarrow> (map_option Failed (termErr it), a', Some it')) \<and>
           closed it' = 1 \<and> items it' = items it"
proof -
  let ?st = "if \<not> reverse then it_First it else it_Last it"
  have pre: "if reverse then pos ?st < int (length (items ?st)) else 0 \<le> pos ?st"
    by (simp add: it_First_def it_Last_def)
  have ah: "(if reverse then rev (take (nat (pos ?st + 1)) (items it))
             else drop (nat (pos ?st)) (items it))
            = (if reverse then rev (items it) else items it)"
    by (simp add: it_First_def it_Last_def)
  have same: "items ?st = items it" "termErr ?st = termErr it" "closed ?st = closed it"
    by (simp_all add: it_First_def it_Last_def)
  from iterLoop_walk [OF pre, of fn a, unfolded same ah]
  obtain it1 where l: "iterLoop reverse fn ?st a =
           (case walkSpec fn (if reverse then rev (items it) else items it) a of
              (Some e, a') \<Rightarrow> (Some (Failed e), a', it1)
            | (None, a') \<Rightarrow> (map_option Failed (termErr it), a', it1))"
    and f: "items it1 = items it" "closed it1 = closed it"
    by blast
  have c0: "closed it = 0" using Session_Iterator_fresh [OF i] by simp
  have "IterateOnRange c t (Some r) reverse fn a s =
          (case iterLoop reverse fn ?st a of (r, a', it') \<Rightarrow> (r, a', Some (it_Close it')))"
    using b i by (simp add: IterateOnRange_def)
  then have "IterateOnRange c t (Some r) reverse fn a s =
           (case walkSpec fn (if reverse then rev (items it) else items it) a of
              (Some e, a') \<Rightarrow> (Some (Failed e), a', Some (it_Close it1))
            | (None, a') \<Rightarrow> (map_option Failed (termErr it), a', Some (it_Close it1)))"
    unfolding l by (simp split: prod.splits option.splits)
  moreover have "closed (it_Close it1) = 1" "items (it_Close it1) = items it"
    using f c0 by (simp_all add: it_Close_def)
  ultimately show ?thesis by blast
qed

text \<open>
  Claim C7.  \<open>IterateOnRange\<close> returns at once, without calling the callback, the
  failure of building the boundaries or the error of opening the iterator.  Once
  the iterator is open, the walk is the reference walk over the entries within the
  bounds, in key order or in reverse: the first error of reading a value or of the
  callback ends it and is the result, whatever entries follow; when there is none the
  result is the terminal error of the iterator, if any.  In each of these cases the
  iterator has been closed exactly once when the function returns.
\<close>

theorem IterateOnRange_errors:
  "IterateOnRange c t None reverse fn a s =
     IterateOnRange c t (Some \<lparr>Min_key = None, Max_key = None, Exclusive = False\<rparr>)
       reverse fn a s \<and>
   (rangeBoundaries c t r = Inl f \<longrightarrow>
      IterateOnRange c t (Some r) reverse fn a s = (Some f, a, None)) \<and>
   (rangeBoundaries c t r = Inr (lo, hi) \<and>
    Session_Iterator \<lparr>LowerBound = lo, UpperBound = hi\<rparr> s = Inl e \<longrightarrow>
      IterateOnRange c t (Some r) reverse fn a s = (Some (Failed e), a, None)) \<and>
   (rangeBoundaries c t r = Inr (lo, hi) \<and>
    Session_Iterator \<lparr>LowerBound = lo, UpperBound = hi\<rparr> s = Inr it \<longrightarrow>
      (\<exists>it'. IterateOnRange c t (Some r) reverse fn a s =
           (case walkSpec fn (if reverse then rev (items it) else items it) a of
              (Some e, a') \<Rightarrow> (Some (Failed e), a', Some it')
            | (None, a') \<Rightarrow> (map_option Failed (termErr it), a', Some it')) \<and>
           closed it' = 1 \<and> items it' = items it)) \<and>
   (walkSpec fn xs a = (None, a1) \<longrightarrow>
      walkSpec fn (xs @ (k, Inl e) # ys) a = (Some e, a1)) \<and>
   (walkSpec fn xs a = (None, a1) \<and>
    fn \<lparr>values' = [], Encoded = Some k\<rparr> (if v = [] \<or> hd v = 0 then None else Some v) a1
      = (Some e, a2) \<longrightarrow>
      walkSpec fn (xs @ (k, Inr v) # ys) a = (Some e, a2))"
  using IterateOnRange_nil [of c t reverse fn a s]
    IterateOnRange_boundary_failure [of c t r f reverse fn a s]
    IterateOnRange_open_error [of c t r lo hi s e reverse fn a]
    IterateOnRange_walk [of c t r lo hi s it reverse fn a]
    walkSpec_value_error [of fn xs a a1 k e ys]
    walkSpec_callback_error [of fn xs a a1 k v e a2 ys]
  by (intro conjI impI) blast+

theorem IterateOnRange_errors_witness:
  "rangeBoundaries demoCodec (New 12 0) \<lparr>Min_key = None, Max_key = None, Exclusive = False\<rparr>
     = Inr ([12], [12, 0xFF]) \<and>
   Session_Iterator \<lparr>LowerBound = [12], UpperBound = [12, 0xFF]\<rparr>
       ((demoSession [([12, 5, 1], [7]), ([12, 5, 2], [0]), ([12, 5, 3], [9]), ([13, 5, 1], [1])])
          \<lparr>valueErr := [[12, 5, 3] \<mapsto> ErrOther ''io''], iterErr := Some (ErrOther ''term'')\<rparr>)
     = Inr \<lparr>items = [([12, 5, 1], Inr [7]), ([12, 5, 2], Inr [0]),
                       ([12, 5, 3], Inl (ErrOther ''io''))],
            pos = - 1, termErr = Some (ErrOther ''term''), closed = 0\<rparr> \<and>
   fst (IterateOnRange demoCodec (New 12 0) None False collectKeys []
       ((demoSession [([12, 5, 1], [7]), ([12, 5, 2], [0]), ([12, 5, 3], [9]), ([13, 5, 1], [1])])
          \<lparr>valueErr := [[12, 5, 3] \<mapsto> ErrOther ''io''], iterErr := Some (ErrOther ''term'')\<rparr>))
     = Some (Failed (ErrOther ''io'')) \<and>
   fst (snd (IterateOnRange demoCodec (New 12 0) None False collectKeys []
       ((demoSession [([12, 5, 1], [7]), ([12, 5, 2], [0]), ([12, 5, 3], [9]), ([13, 5, 1], [1])])
          \<lparr>valueErr := [[12, 5, 3] \<mapsto> ErrOther ''io''], iterErr := Some (ErrOther ''term'')\<rparr>)))
     = [(Some [12, 5, 1], Some [7]), (Some [12, 5, 2], None)] \<and>
   map_option closed (snd (snd (IterateOnRange demoCodec (New 12 0) None False collectKeys []
       ((demoSession [([12, 5, 1], [7]), ([12, 5, 2], [0]), ([12, 5, 3], [9]), ([13, 5, 1], [1])])
          \<lparr>valueErr := [[12, 5, 3] \<mapsto> ErrOther ''io''], iterErr := Some (ErrOther ''term'')\<rparr>))))
     = Some 1 \<and>
   IterateOnRange demoCodec (New 12 0) None False collectKeys []
       ((demoSession [([12, 5, 1], [7])]) \<lparr>iterOpenErr := Some (ErrOther ''open'')\<rparr>)
     = (Some (Failed (ErrOther ''open'')), [], None) \<and>
   IterateOnRange demoCodec (New 12 0)
       (Some \<lparr>Min_key = None, Max_key = Some (NewKey []), Exclusive = False\<rparr>)
       False collectKeys [] (demoSession [([12, 5, 1], [7])])
     = (Some (Panicked SliceBounds), [], None) \<and>
   walkSpec (stopAt [12, 5, 2] :: (byte \<times> byte) Key \<Rightarrow> _) ([([12, 5, 1], Inr [7])] @ ([12, 5, 2], Inr [0]) # [([12, 5, 3], Inr [9])]) []
     = (Some (ErrOther ''stop''), [(Some [12, 5, 1], Some [7])]) \<and>
   walkSpec (collectKeys :: (byte \<times> byte) Key \<Rightarrow> _) ([([12, 5, 1], Inr [7])] @ ([12, 5, 2], Inl (ErrOther ''io'')) # [([12, 5, 3], Inr [9])]) []
     = (Some (ErrOther ''io''), [(Some [12, 5, 1], Some [7])])"
proof -
  let ?t = "New 12 0"
  let ?r0 = "\<lparr>Min_key = None, Max_key = None, Exclusive = False\<rparr> :: (byte \<times> byte) Range"
  let ?r1 = "\<lparr>Min_key = None, Max_key = Some (NewKey ([] :: (byte \<times> byte) list)), Exclusive = False\<rparr>"
  let ?L = "[([12, 5, 1], [7]), ([12, 5, 2], [0]), ([12, 5, 3], [9]), ([13, 5, 1], [1])] :: (bytes \<times> bytes) list"
  let ?s1 = "(demoSession ?L)\<lparr>valueErr := [[12, 5, 3] \<mapsto> ErrOther ''io''],
                iterErr := Some (ErrOther ''term'')\<rparr>"
  let ?s3 = "(demoSession [([12, 5, 1], [7])])\<lparr>iterOpenErr := Some (ErrOther ''open'')\<rparr>"
  let ?s4 = "demoSession [([12, 5, 1], [7])]"
  let ?it = "\<lparr>items = [([12, 5, 1], Inr [7]), ([12, 5, 2], Inr [0]),
                       ([12, 5, 3], Inl (ErrOther ''io''))],
            pos = - 1, termErr = Some (ErrOther ''term''), closed = 0\<rparr>"
  have b0: "rangeBoundaries demoCodec ?t ?r0 = Inr ([12], [12, 0xFF])"
    by (simp add: rangeBoundaries_def isDescRange_def buildInclusiveBoundaries_def
        buildMinKeyForType_def buildMaxKeyForType_def buildFirstKey_def buildLastKey_def
        demoCodec_def NewKey_def New_def)
  have b1: "rangeBoundaries demoCodec ?t ?r1 = Inl (Panicked SliceBounds)"
    by (simp add: rangeBoundaries_def isDescRange_def IsDesc_minus_one
        buildInclusiveBoundaries_def buildMinKeyForType_def NewKey_def)
  have i1: "Session_Iterator \<lparr>LowerBound = [12], UpperBound = [12, 0xFF]\<rparr> ?s1 = Inr ?it"
    by (simp add: Session_Iterator_def demoSession_def inBounds_def readValue_def)
  have i3: "Session_Iterator \<lparr>LowerBound = [12], UpperBound = [12, 0xFF]\<rparr> ?s3
              = Inl (ErrOther ''open'')"
    by (simp add: Session_Iterator_def demoSession_def)
  have w1: "walkSpec (collectKeys :: (byte \<times> byte) Key \<Rightarrow> _) (items ?it) []
              = (Some (ErrOther ''io''), [(Some [12, 5, 1], Some [7]), (Some [12, 5, 2], None)])"
    by (simp add: collectKeys_def)
  have w2: "walkSpec (stopAt [12, 5, 2] :: (byte \<times> byte) Key \<Rightarrow> _) [([12, 5, 1], Inr [7])] []
              = (None, [(Some [12, 5, 1], Some [7])])"
    by (simp add: stopAt_def)
  have w3: "walkSpec (collectKeys :: (byte \<times> byte) Key \<Rightarrow> _) [([12, 5, 1], Inr [7])] []
              = (None, [(Some [12, 5, 1], Some [7])])"
    by (simp add: collectKeys_def)
  have c2: "(stopAt [12, 5, 2] :: (byte \<times> byte) Key \<Rightarrow> _) \<lparr>values' = ([] :: (byte \<times> byte) list), Encoded = Some [12, 5, 2]\<rparr>
              (if [0] = ([] :: bytes) \<or> hd [0] = (0 :: byte) then None else Some [0])
              [(Some [12, 5, 1], Some [7])]
            = (Some (ErrOther ''stop''), [(Some [12, 5, 1], Some [7])])"
    by (simp add: stopAt_def)
  note T1 = IterateOnRange_errors [of demoCodec ?t False collectKeys "[]" ?s1 ?r0 _
      "[12]" "[12, 0xFF]" _ ?it]
  note T1w = T1 [THEN conjunct2, THEN conjunct2, THEN conjunct2, THEN conjunct1, THEN mp,
      OF conjI [OF b0 i1]]
  from T1w obtain it' where
    e1: "IterateOnRange demoCodec ?t (Some ?r0) False collectKeys [] ?s1 =
           (case walkSpec (collectKeys :: (byte \<times> byte) Key \<Rightarrow> _) (if False then rev (items ?it) else items ?it) [] of
              (Some e, a') \<Rightarrow> (Some (Failed e), a', Some it')
            | (None, a') \<Rightarrow> (map_option Failed (termErr ?it), a', Some it'))"
    and cl: "closed it' = 1"
    by (elim exE conjE) (rule that; assumption)
  have n1: "IterateOnRange demoCodec ?t None False collectKeys [] ?s1 =
      IterateOnRange demoCodec ?t (Some ?r0) False collectKeys [] ?s1"
    by (rule T1 [THEN conjunct1])
  have r1: "IterateOnRange demoCodec ?t None False collectKeys [] ?s1 =
      (Some (Failed (ErrOther ''io'')), [(Some [12, 5, 1], Some [7]), (Some [12, 5, 2], None)],
       Some it')"
    unfolding n1 e1 using w1 by simp
  note T3 = IterateOnRange_errors [of demoCodec ?t False collectKeys "[]" ?s3 ?r0 _
      "[12]" "[12, 0xFF]" "ErrOther ''open''"]
  have r3: "IterateOnRange demoCodec ?t None False collectKeys [] ?s3
              = (Some (Failed (ErrOther ''open'')), [], None)"
    unfolding T3 [THEN conjunct1]
    by (rule T3 [THEN conjunct2, THEN conjunct2, THEN conjunct1, THEN mp, OF conjI [OF b0 i3]])
  note T4 = IterateOnRange_errors [of demoCodec ?t False collectKeys "[]" ?s4 ?r1
      "Panicked SliceBounds"]
  have r4: "IterateOnRange demoCodec ?t (Some ?r1) False collectKeys [] ?s4
              = (Some (Panicked SliceBounds), [], None)"
    by (rule T4 [THEN conjunct2, THEN conjunct1, THEN mp, OF b1])
  note T5 = IterateOnRange_errors [of demoCodec ?t False "stopAt [12, 5, 2]" "[]" ?s4 ?r0 _ _ _
      "ErrOther ''stop''" _
      "[([12, 5, 1], Inr [7])]" "[(Some [12, 5, 1], Some [7])]" "[12, 5, 2]"
      "[([12, 5, 3], Inr [9])]" "[0]" "[(Some [12, 5, 1], Some [7])]"]
  have r5: "walkSpec (stopAt [12, 5, 2] :: (byte \<times> byte) Key \<Rightarrow> _)
              ([([12, 5, 1], Inr [7])] @ ([12, 5, 2], Inr [0]) # [([12, 5, 3], Inr [9])]) []
            = (Some (ErrOther ''stop''), [(Some [12, 5, 1], Some [7])])"
    by (rule T5 [THEN conjunct2, THEN conjunct2, THEN conjunct2, THEN conjunct2, THEN conjunct2,
          THEN mp, OF conjI [OF w2 c2]])
  note T6 = IterateOnRange_errors [of demoCodec ?t False collectKeys "[]" ?s4 ?r0 _ _ _
      "ErrOther ''io''" _
      "[([12, 5, 1], Inr [7])]" "[(Some [12, 5, 1], Some [7])]" "[12, 5, 2]"
      "[([12, 5, 3], Inr [9])]"]
  have r6: "walkSpec (collectKeys :: (byte \<times> byte) Key \<Rightarrow> _)
              ([([12, 5, 1], Inr [7])] @ ([12, 5, 2], Inl (ErrOther ''io'')) # [([12, 5, 3], Inr [9])]) []
            = (Some (ErrOther ''io''), [(Some [12, 5, 1], Some [7])])"
    by (rule T6 [THEN conjunct2, THEN conjunct2, THEN conjunct2, THEN conjunct2, THEN conjunct1,
          THEN mp, OF w3])
  show ?thesis
    unfolding r1 using b0 i1 cl r3 r4 r5 r6 by simp
qed

section \<open>Truncate and the whole namespace\<close>







lemma IterateOnRange_session_cong:
  assumes "\<And>lo hi. Session_Iterator \<lparr>LowerBound = lo, UpperBound = hi\<rparr> s' =
                     Session_Iterator \<lparr>LowerBound = lo, UpperBound = hi\<rparr> s"
  shows "IterateOnRange c t rng reverse fn a s' = IterateOnRange c t rng reverse fn a s"
  unfolding IterateOnRange_def assms by (rule refl)









section \<open>Transient trees\<close>










end
